theory Spec2Isabelle
  imports Main "HOL-Library.Word" "HOL-Library.FSet"
begin

section \<open>Strings of the host language\<close>

text \<open>
  A string of the program is a sequence of UTF-16 code units. The literals of the
  source that lie outside ASCII (the byte-order mark, the Chinese labels, the
  icons) are written as their code units.
\<close>

type_synonym jsstring = "16 word list"

definition ascii :: "string \<Rightarrow> jsstring" where
  "ascii s = map (\<lambda>c. of_nat (of_char c)) s"

text \<open>
  \<^verbatim>\<open>String.prototype.trim\<close>: strips the white space and line terminator code
  units of ECMA-262 from both ends.
\<close>

definition isWhiteSpace :: "16 word \<Rightarrow> bool" where
  "isWhiteSpace c \<longleftrightarrow>
     c \<in> {0x09, 0x0A, 0x0B, 0x0C, 0x0D, 0x20, 0xA0, 0x1680, 0x2028, 0x2029,
          0x202F, 0x205F, 0x3000, 0xFEFF} \<or> (0x2000 \<le> c \<and> c \<le> 0x200A)"

definition trim :: "jsstring \<Rightarrow> jsstring" where
  "trim s = rev (dropWhile isWhiteSpace (rev (dropWhile isWhiteSpace s)))"

text \<open>
  \<^verbatim>\<open>Array.prototype.join\<close> on an array of strings.
\<close>

fun join :: "jsstring \<Rightarrow> jsstring list \<Rightarrow> jsstring" where
  "join sep [] = []"
| "join sep [x] = x"
| "join sep (x # y # ys) = x @ sep @ join sep (y # ys)"

text \<open>
  Number to string, for the integers the program prints (identifiers, which are
  clock readings in milliseconds, and array lengths): the decimal numeral, with a
  minus sign for a negative number.
\<close>

fun showNat :: "nat \<Rightarrow> jsstring" where
  "showNat n = (if n < 10 then [of_nat (48 + n)]
                else showNat (n div 10) @ [of_nat (48 + n mod 10)])"

declare showNat.simps [simp del]

definition numberToString :: "int \<Rightarrow> jsstring" where
  "numberToString n = (if n < 0 then 0x2D # showNat (nat (- n)) else showNat (nat n))"

definition booleanToString :: "bool \<Rightarrow> jsstring" where
  "booleanToString b = (if b then ascii ''true'' else ascii ''false'')"

text \<open>
  \<^verbatim>\<open>text.replace(/"/g, '""')\<close>: every double quote is replaced by two.
\<close>

definition replace_quotes :: "jsstring \<Rightarrow> jsstring" where
  "replace_quotes s = concat (map (\<lambda>c. if c = 0x22 then [0x22, 0x22] else [c]) s)"

section \<open>Data model\<close>

datatype Priority = High | Medium | Low

record Todo =
  todo_id :: int
  todo_text :: jsstring
  todo_completed :: bool
  todo_priority :: Priority

datatype ExportFormat = Txt | Json | Csv

fun priorityLabels :: "Priority \<Rightarrow> jsstring" where
  "priorityLabels High = [0x9AD8]"
| "priorityLabels Medium = [0x4E2D]"
| "priorityLabels Low = [0x4F4E]"

text \<open>
  The state of the component: one field for each \<^verbatim>\<open>useState\<close> of the source.
  The selection is a finite set of identifiers.
\<close>

record state =
  todos :: "Todo list"
  isHydrated :: bool
  inputValue :: jsstring
  selectedPriority :: Priority
  selectedIds :: "int fset"
  exportDropdownOpen :: bool

definition initial_state :: state where
  "initial_state = \<lparr>todos = [], isHydrated = False, inputValue = [],
     selectedPriority = Medium, selectedIds = {||}, exportDropdownOpen = False\<rparr>"

section \<open>The handlers\<close>

text \<open>
  \<^verbatim>\<open>addTodo\<close> reads the clock (\<^verbatim>\<open>Date.now()\<close>), which is the argument \<open>now\<close>, and
  compares texts after \<^verbatim>\<open>toLowerCase\<close>, the case mapping of the host, which is
  the argument \<open>toLowerCase\<close>.
\<close>

definition addTodo :: "(jsstring \<Rightarrow> jsstring) \<Rightarrow> int \<Rightarrow> state \<Rightarrow> state" where
  "addTodo toLowerCase now s =
     (let trimmed = trim (inputValue s) in
      if trimmed \<noteq> [] then
        (let exists = list_ex (\<lambda>todo. toLowerCase (todo_text todo) = toLowerCase trimmed) (todos s);
             s' = (if \<not> exists
                   then s\<lparr>todos := todos s @
                          [\<lparr>todo_id = now, todo_text = trimmed, todo_completed = False,
                            todo_priority = selectedPriority s\<rparr>]\<rparr>
                   else s)
         in s'\<lparr>inputValue := [], selectedPriority := Medium\<rparr>)
      else s)"

definition toggleTodo :: "int \<Rightarrow> state \<Rightarrow> state" where
  "toggleTodo i s =
     s\<lparr>todos := map (\<lambda>todo. if todo_id todo = i
                              then todo\<lparr>todo_completed := \<not> todo_completed todo\<rparr>
                              else todo) (todos s)\<rparr>"

definition deleteTodo :: "int \<Rightarrow> state \<Rightarrow> state" where
  "deleteTodo i s =
     s\<lparr>todos := filter (\<lambda>todo. todo_id todo \<noteq> i) (todos s),
       selectedIds := selectedIds s |-| {|i|}\<rparr>"

definition toggleSelect :: "int \<Rightarrow> state \<Rightarrow> state" where
  "toggleSelect i s =
     (if i |\<in>| selectedIds s
      then s\<lparr>selectedIds := selectedIds s |-| {|i|}\<rparr>
      else s\<lparr>selectedIds := finsert i (selectedIds s)\<rparr>)"

definition toggleSelectAll :: "state \<Rightarrow> state" where
  "toggleSelectAll s =
     (if fcard (selectedIds s) = length (todos s)
      then s\<lparr>selectedIds := {||}\<rparr>
      else s\<lparr>selectedIds := fset_of_list (map todo_id (todos s))\<rparr>)"

definition batchDelete :: "state \<Rightarrow> state" where
  "batchDelete s =
     s\<lparr>todos := filter (\<lambda>todo. todo_id todo |\<notin>| selectedIds s) (todos s),
       selectedIds := {||}\<rparr>"

section \<open>The csv export\<close>

definition csvHeader :: jsstring where
  "csvHeader = ascii ''ID,Text,Completed,CompletedText,Priority''"

definition completedLabel :: "bool \<Rightarrow> jsstring" where
  "completedLabel b = (if b then [0x5DF2, 0x5B8C, 0x6210] else [0x672A, 0x5B8C, 0x6210])"

definition csvRow :: "Todo \<Rightarrow> jsstring" where
  "csvRow todo =
     [0x09] @ numberToString (todo_id todo) @ ascii '','' @
     [0x22] @ replace_quotes (todo_text todo) @ [0x22] @ ascii '','' @
     booleanToString (todo_completed todo) @ ascii '','' @
     completedLabel (todo_completed todo) @ ascii '','' @
     priorityLabels (todo_priority todo)"

definition csvContent :: "Todo list \<Rightarrow> jsstring" where
  "csvContent todosToExport = [0xFEFF] @ join [0x0A] (csvHeader # map csvRow todosToExport)"

text \<open>
  The csv export as the specification words it: the byte-order mark, the header, and
  one row per item whose first field is the identifier itself.
\<close>

definition csv_spec_row :: "Todo \<Rightarrow> jsstring" where
  "csv_spec_row todo =
     numberToString (todo_id todo) @ ascii '','' @
     [0x22] @ replace_quotes (todo_text todo) @ [0x22] @ ascii '','' @
     booleanToString (todo_completed todo) @ ascii '','' @
     completedLabel (todo_completed todo) @ ascii '','' @
     priorityLabels (todo_priority todo)"

definition csv_spec :: "Todo list \<Rightarrow> jsstring" where
  "csv_spec items = [0xFEFF] @ csvHeader @ concat (map (\<lambda>t. 0x0A # csv_spec_row t) items)"

definition say_hi :: Todo where
  "say_hi = \<lparr>todo_id = 1, todo_text = ascii ''Say '' @ [0x22] @ ascii ''hi'' @ [0x22],
             todo_completed = False, todo_priority = Medium\<rparr>"

section \<open>Commands\<close>

text \<open>
  The case mapping of the host restricted to the letters A to Z. It stands for
  \<^verbatim>\<open>toLowerCase\<close> where an example is run; the theorems hold for every case mapping.
\<close>

definition toLowerCase_ascii :: "jsstring \<Rightarrow> jsstring" where
  "toLowerCase_ascii s = map (\<lambda>c. if 0x41 \<le> c \<and> c \<le> 0x5A then c + 0x20 else c) s"

text \<open>
  The operation \<^verbatim>\<open>add(state, text, priority)\<close> of the specification: the user types
  the text (\<^verbatim>\<open>setInputValue\<close>), picks the priority (\<^verbatim>\<open>setSelectedPriority\<close>), and
  \<^verbatim>\<open>addTodo\<close> runs at the clock reading \<open>now\<close>.
\<close>

definition add :: "(jsstring \<Rightarrow> jsstring) \<Rightarrow> int \<Rightarrow> jsstring \<Rightarrow> Priority \<Rightarrow> state \<Rightarrow> state" where
  "add toLowerCase now text priority s =
     addTodo toLowerCase now (s\<lparr>inputValue := text, selectedPriority := priority\<rparr>)"

datatype command =
  Add jsstring Priority int
  | Toggle int
  | Remove int
  | ToggleSelect int
  | ToggleSelectAll
  | BatchDelete

fun step :: "(jsstring \<Rightarrow> jsstring) \<Rightarrow> command \<Rightarrow> state \<Rightarrow> state" where
  "step lc (Add text priority now) s = add lc now text priority s"
| "step lc (Toggle i) s = toggleTodo i s"
| "step lc (Remove i) s = deleteTodo i s"
| "step lc (ToggleSelect i) s = toggleSelect i s"
| "step lc ToggleSelectAll s = toggleSelectAll s"
| "step lc BatchDelete s = batchDelete s"

definition run :: "(jsstring \<Rightarrow> jsstring) \<Rightarrow> command list \<Rightarrow> state \<Rightarrow> state" where
  "run lc cs s = fold (step lc) cs s"

text \<open>
  The selection invariant of the specification: the selected identifiers are
  identifiers of items of the collection.
\<close>

definition item_ids :: "state \<Rightarrow> int fset" where
  "item_ids s = fset_of_list (map todo_id (todos s))"

definition selection_ok :: "state \<Rightarrow> bool" where
  "selection_ok s \<longleftrightarrow> selectedIds s |\<subseteq>| item_ids s"

definition two_items :: state where
  "two_items = initial_state\<lparr>todos :=
     [\<lparr>todo_id = 1, todo_text = ascii ''a'', todo_completed = False, todo_priority = High\<rparr>,
      \<lparr>todo_id = 2, todo_text = ascii ''b'', todo_completed = False, todo_priority = Low\<rparr>]\<rparr>"

text \<open>
  A sequence of \<^verbatim>\<open>add\<close> calls: each call has its text, its priority and the clock
  reading at which it runs.
\<close>

definition add_calls :: "(jsstring \<times> Priority \<times> int) list \<Rightarrow> command list" where
  "add_calls calls = map (\<lambda>(text, priority, now). Add text priority now) calls"

definition clock_of :: "jsstring \<times> Priority \<times> int \<Rightarrow> int" where
  "clock_of call = snd (snd call)"

text \<open>
  No two items of the collection have texts that are equal after the case mapping.
\<close>

definition no_duplicate_text :: "(jsstring \<Rightarrow> jsstring) \<Rightarrow> state \<Rightarrow> bool" where
  "no_duplicate_text lc s \<longleftrightarrow> distinct (map (\<lambda>todo. lc (todo_text todo)) (todos s))"

definition same_tick_calls :: "(jsstring \<times> Priority \<times> int) list" where
  "same_tick_calls = [(ascii ''a'', Medium, 5), (ascii ''b'', Medium, 5)]"

definition set_back_calls :: "(jsstring \<times> Priority \<times> int) list" where
  "set_back_calls = [(ascii ''a'', Medium, 10), (ascii ''b'', Medium, 5)]"

definition rising_calls :: "(jsstring \<times> Priority \<times> int) list" where
  "rising_calls = [(ascii ''a'', Medium, 5), (ascii ''b'', High, 6)]"

definition buy_milk_calls :: "(jsstring \<times> Priority \<times> int) list" where
  "buy_milk_calls = [(ascii ''Buy milk'', High, 10), (ascii '' buy MILK '', Low, 20),
                     (ascii ''   '', Low, 30)]"

section \<open>Values and JSON\<close>

text \<open>
  The values \<^verbatim>\<open>JSON.parse\<close> returns and \<^verbatim>\<open>JSON.stringify\<close> takes. A number is an
  integer: the program creates no other (identifiers are clock readings, counts are
  lengths). An object is the list of its properties in the order the host enumerates
  them: array indices in ascending order, then the other keys in the order of their
  creation; \<^verbatim>\<open>define_property\<close> keeps that order.
\<close>

datatype jsval =
  JNull
  | JBool bool
  | JNum int
  | JStr jsstring
  | JArr "jsval list"
  | JObj "(jsstring \<times> jsval) list"

definition isDigit :: "16 word \<Rightarrow> bool" where
  "isDigit c \<longleftrightarrow> 0x30 \<le> c \<and> c \<le> 0x39"

definition digits_value :: "jsstring \<Rightarrow> nat" where
  "digits_value ds = foldl (\<lambda>n c. 10 * n + unat (c - 0x30)) 0 ds"

definition array_index :: "jsstring \<Rightarrow> nat option" where
  "array_index k =
     (if k \<noteq> [] \<and> list_all isDigit k \<and> (k = [0x30] \<or> hd k \<noteq> 0x30) \<and> length k \<le> 10
         \<and> digits_value k < 4294967295
      then Some (digits_value k) else None)"

definition comes_before :: "jsstring \<Rightarrow> jsstring \<Rightarrow> bool" where
  "comes_before k k' =
     (case array_index k of
        None \<Rightarrow> False
      | Some n \<Rightarrow> (case array_index k' of None \<Rightarrow> True | Some m \<Rightarrow> n < m))"

fun define_property :: "jsstring \<Rightarrow> jsval \<Rightarrow> (jsstring \<times> jsval) list \<Rightarrow> (jsstring \<times> jsval) list" where
  "define_property k v [] = [(k, v)]"
| "define_property k v ((k', v') # ps) =
     (if k' = k then (k, v) # ps
      else if comes_before k k' then (k, v) # (k', v') # ps
      else (k', v') # define_property k v ps)"

text \<open>
  \<^verbatim>\<open>JSON.stringify\<close>, after ECMA-262: \<^verbatim>\<open>QuoteJSONString\<close> escapes the quote, the
  backslash, the control characters and the lone surrogates; \<^verbatim>\<open>SerializeJSONProperty\<close>
  takes the gap and the current indentation.
\<close>

definition hexDigit :: "nat \<Rightarrow> 16 word" where
  "hexDigit d = of_nat (if d < 10 then 48 + d else 87 + d)"

definition unicodeEscape :: "16 word \<Rightarrow> jsstring" where
  "unicodeEscape c =
     [0x5C, 0x75, hexDigit (unat c div 4096), hexDigit (unat c div 256 mod 16),
      hexDigit (unat c div 16 mod 16), hexDigit (unat c mod 16)]"

definition isLeadingSurrogate :: "16 word \<Rightarrow> bool" where
  "isLeadingSurrogate c \<longleftrightarrow> 0xD800 \<le> c \<and> c \<le> 0xDBFF"

definition isTrailingSurrogate :: "16 word \<Rightarrow> bool" where
  "isTrailingSurrogate c \<longleftrightarrow> 0xDC00 \<le> c \<and> c \<le> 0xDFFF"

definition quoteUnit :: "16 word \<Rightarrow> jsstring" where
  "quoteUnit c =
     (if c = 0x08 then [0x5C, 0x62]
      else if c = 0x09 then [0x5C, 0x74]
      else if c = 0x0A then [0x5C, 0x6E]
      else if c = 0x0C then [0x5C, 0x66]
      else if c = 0x0D then [0x5C, 0x72]
      else if c = 0x22 then [0x5C, 0x22]
      else if c = 0x5C then [0x5C, 0x5C]
      else if c < 0x20 \<or> isLeadingSurrogate c \<or> isTrailingSurrogate c then unicodeEscape c
      else [c])"

fun quoteChars :: "jsstring \<Rightarrow> jsstring" where
  "quoteChars [] = []"
| "quoteChars [c] = quoteUnit c"
| "quoteChars (c # d # cs) =
     (if isLeadingSurrogate c \<and> isTrailingSurrogate d then c # d # quoteChars cs
      else quoteUnit c @ quoteChars (d # cs))"

definition QuoteJSONString :: "jsstring \<Rightarrow> jsstring" where
  "QuoteJSONString s = [0x22] @ quoteChars s @ [0x22]"

definition wrap :: "jsstring \<Rightarrow> jsstring \<Rightarrow> jsstring \<Rightarrow> jsstring \<Rightarrow> jsstring \<Rightarrow> jsstring list \<Rightarrow> jsstring" where
  "wrap opening closing gap stepback indent partial =
     (if partial = [] then opening @ closing
      else if gap = [] then opening @ join [0x2C] partial @ closing
      else opening @ [0x0A] @ indent @ join ([0x2C, 0x0A] @ indent) partial @
           [0x0A] @ stepback @ closing)"

fun SerializeJSONProperty :: "jsstring \<Rightarrow> jsstring \<Rightarrow> jsval \<Rightarrow> jsstring" where
  "SerializeJSONProperty gap indent JNull = ascii ''null''"
| "SerializeJSONProperty gap indent (JBool b) = booleanToString b"
| "SerializeJSONProperty gap indent (JNum n) = numberToString n"
| "SerializeJSONProperty gap indent (JStr s) = QuoteJSONString s"
| "SerializeJSONProperty gap indent (JArr xs) =
     wrap [0x5B] [0x5D] gap indent (indent @ gap)
       (map (SerializeJSONProperty gap (indent @ gap)) xs)"
| "SerializeJSONProperty gap indent (JObj ps) =
     wrap [0x7B] [0x7D] gap indent (indent @ gap)
       (map (\<lambda>(k, v). QuoteJSONString k @ [0x3A] @ (if gap \<noteq> [] then [0x20] else []) @
                        SerializeJSONProperty gap (indent @ gap) v) ps)"


definition JSON_stringify :: "jsval \<Rightarrow> jsstring" where
  "JSON_stringify v = SerializeJSONProperty [] [] v"

definition JSON_stringify_indent2 :: "jsval \<Rightarrow> jsstring" where
  "JSON_stringify_indent2 v = SerializeJSONProperty (ascii ''  '') [] v"

text \<open>
  \<^verbatim>\<open>JSON.parse\<close>, after the JSON grammar, as a recursive descent with fuel. A parse
  step returns the value and the rest of the input, or \<open>Bad\<close> (a syntax error), or
  \<open>Beyond\<close> where the model says nothing: a number with a fraction or an exponent, or
  beyond the integers a double holds exactly, or missing fuel.
\<close>

datatype 'a partial = Ok 'a jsstring | Bad | Beyond

fun map_partial :: "('a \<Rightarrow> 'b) \<Rightarrow> 'a partial \<Rightarrow> 'b partial" where
  "map_partial f (Ok x rest) = Ok (f x) rest"
| "map_partial f Bad = Bad"
| "map_partial f Beyond = Beyond"

definition isJSONWhiteSpace :: "16 word \<Rightarrow> bool" where
  "isJSONWhiteSpace c \<longleftrightarrow> c = 0x20 \<or> c = 0x09 \<or> c = 0x0A \<or> c = 0x0D"

definition skip_ws :: "jsstring \<Rightarrow> jsstring" where
  "skip_ws cs = dropWhile isJSONWhiteSpace cs"

definition hexValue :: "16 word \<Rightarrow> nat option" where
  "hexValue c =
     (if 0x30 \<le> c \<and> c \<le> 0x39 then Some (unat c - 48)
      else if 0x41 \<le> c \<and> c \<le> 0x46 then Some (unat c - 55)
      else if 0x61 \<le> c \<and> c \<le> 0x66 then Some (unat c - 87)
      else None)"

definition hex4 :: "16 word \<Rightarrow> 16 word \<Rightarrow> 16 word \<Rightarrow> 16 word \<Rightarrow> 16 word option" where
  "hex4 a b c d =
     (case (hexValue a, hexValue b, hexValue c, hexValue d) of
        (Some x, Some y, Some z, Some w) \<Rightarrow> Some (of_nat (4096 * x + 256 * y + 16 * z + w))
      | _ \<Rightarrow> None)"

definition unescape :: "16 word \<Rightarrow> 16 word option" where
  "unescape e =
     (if e = 0x22 \<or> e = 0x5C \<or> e = 0x2F then Some e
      else if e = 0x62 then Some 0x08
      else if e = 0x66 then Some 0x0C
      else if e = 0x6E then Some 0x0A
      else if e = 0x72 then Some 0x0D
      else if e = 0x74 then Some 0x09
      else None)"

fun parse_chars :: "jsstring \<Rightarrow> jsstring partial" where
  "parse_chars [] = Bad"
| "parse_chars (c # cs) =
     (if c = 0x22 then Ok [] cs
      else if c < 0x20 then Bad
      else if c \<noteq> 0x5C then map_partial ((#) c) (parse_chars cs)
      else (case cs of
              [] \<Rightarrow> Bad
            | e # cs1 \<Rightarrow>
                if e = 0x75 then
                  (case cs1 of
                     h1 # h2 # h3 # h4 # cs2 \<Rightarrow>
                       (case hex4 h1 h2 h3 h4 of
                          None \<Rightarrow> Bad
                        | Some u \<Rightarrow> map_partial ((#) u) (parse_chars cs2))
                   | _ \<Rightarrow> Bad)
                else (case unescape e of
                        None \<Rightarrow> Bad
                      | Some u \<Rightarrow> map_partial ((#) u) (parse_chars cs1))))"

definition parse_number :: "jsstring \<Rightarrow> jsval partial" where
  "parse_number cs =
     (let negative = (cs \<noteq> [] \<and> hd cs = 0x2D);
          cs1 = (if negative then tl cs else cs);
          ds = takeWhile isDigit cs1;
          rest = dropWhile isDigit cs1
      in if ds = [] then Bad
         else if length ds > 1 \<and> hd ds = 0x30 then Bad
         else if rest \<noteq> [] \<and> (hd rest = 0x2E \<or> hd rest = 0x65 \<or> hd rest = 0x45) then Beyond
         else if digits_value ds > 9007199254740992 then Beyond
         else Ok (JNum (if negative then - int (digits_value ds) else int (digits_value ds))) rest)"

fun match_literal :: "jsstring \<Rightarrow> jsstring \<Rightarrow> jsstring option" where
  "match_literal [] cs = Some cs"
| "match_literal (l # ls) [] = None"
| "match_literal (l # ls) (c # cs) = (if l = c then match_literal ls cs else None)"

definition parse_literal :: "jsstring \<Rightarrow> jsval partial" where
  "parse_literal cs =
     (case match_literal (ascii ''true'') cs of
        Some rest \<Rightarrow> Ok (JBool True) rest
      | None \<Rightarrow>
     (case match_literal (ascii ''false'') cs of
        Some rest \<Rightarrow> Ok (JBool False) rest
      | None \<Rightarrow>
     (case match_literal (ascii ''null'') cs of
        Some rest \<Rightarrow> Ok JNull rest
      | None \<Rightarrow> Bad)))"

definition build_object :: "(jsstring \<times> jsval) list \<Rightarrow> jsval" where
  "build_object members = JObj (foldl (\<lambda>ps (k, v). define_property k v ps) [] members)"

fun parse_value :: "nat \<Rightarrow> jsstring \<Rightarrow> jsval partial"
  and parse_elements :: "nat \<Rightarrow> jsstring \<Rightarrow> jsval list partial"
  and parse_members :: "nat \<Rightarrow> jsstring \<Rightarrow> (jsstring \<times> jsval) list partial"
where
  "parse_value 0 cs = Beyond"
| "parse_value (Suc n) cs =
     (case skip_ws cs of
        [] \<Rightarrow> Bad
      | c # r \<Rightarrow>
          if c = 0x5B then
            (case skip_ws r of
               [] \<Rightarrow> Bad
             | d # r' \<Rightarrow> if d = 0x5D then Ok (JArr []) r'
                         else map_partial JArr (parse_elements n (d # r')))
          else if c = 0x7B then
            (case skip_ws r of
               [] \<Rightarrow> Bad
             | d # r' \<Rightarrow> if d = 0x7D then Ok (JObj []) r'
                         else map_partial build_object (parse_members n (d # r')))
          else if c = 0x22 then map_partial JStr (parse_chars r)
          else if c = 0x2D \<or> isDigit c then parse_number (c # r)
          else parse_literal (c # r))"
| "parse_elements 0 cs = Beyond"
| "parse_elements (Suc n) cs =
     (case parse_value n cs of
        Bad \<Rightarrow> Bad
      | Beyond \<Rightarrow> Beyond
      | Ok v r \<Rightarrow>
          (case skip_ws r of
             [] \<Rightarrow> Bad
           | c # r' \<Rightarrow>
               if c = 0x2C then map_partial ((#) v) (parse_elements n r')
               else if c = 0x5D then Ok [v] r'
               else Bad))"
| "parse_members 0 cs = Beyond"
| "parse_members (Suc n) cs =
     (case skip_ws cs of
        [] \<Rightarrow> Bad
      | c # r \<Rightarrow>
          if c \<noteq> 0x22 then Bad
          else
            (case parse_chars r of
               Bad \<Rightarrow> Bad
             | Beyond \<Rightarrow> Beyond
             | Ok k r1 \<Rightarrow>
                 (case skip_ws r1 of
                    [] \<Rightarrow> Bad
                  | c1 # r2 \<Rightarrow>
                      if c1 \<noteq> 0x3A then Bad
                      else
                        (case parse_value n r2 of
                           Bad \<Rightarrow> Bad
                         | Beyond \<Rightarrow> Beyond
                         | Ok v r3 \<Rightarrow>
                             (case skip_ws r3 of
                                [] \<Rightarrow> Bad
                              | c3 # r4 \<Rightarrow>
                                  if c3 = 0x2C
                                  then map_partial ((#) (k, v)) (parse_members n r4)
                                  else if c3 = 0x7D then Ok [(k, v)] r4
                                  else Bad)))))"

datatype parse_result = Parsed jsval | SyntaxError | Unmodelled

definition JSON_parse :: "jsstring \<Rightarrow> parse_result" where
  "JSON_parse str =
     (case parse_value (Suc (length str)) str of
        Bad \<Rightarrow> SyntaxError
      | Beyond \<Rightarrow> Unmodelled
      | Ok v rest \<Rightarrow> if skip_ws rest = [] then Parsed v else SyntaxError)"

section \<open>Loading the saved items\<close>

text \<open>
  The body of the load effect works on whatever \<^verbatim>\<open>JSON.parse\<close> returns: the type
  annotation of the callback is not checked when the program runs. \<^verbatim>\<open>truthy\<close> is the
  truth value the operator \<^verbatim>\<open>||\<close> tests, \<^verbatim>\<open>own_properties\<close> the properties the spread
  \<^verbatim>\<open>{...todo}\<close> copies, \<^verbatim>\<open>priority_property\<close> the value of \<^verbatim>\<open>todo.priority\<close> (\<open>None\<close>:
  undefined) for a value other than null.
\<close>

fun truthy :: "jsval \<Rightarrow> bool" where
  "truthy JNull = False"
| "truthy (JBool b) = b"
| "truthy (JNum n) = (n \<noteq> 0)"
| "truthy (JStr s) = (s \<noteq> [])"
| "truthy (JArr xs) = True"
| "truthy (JObj ps) = True"

fun own_properties :: "jsval \<Rightarrow> (jsstring \<times> jsval) list" where
  "own_properties (JObj ps) = ps"
| "own_properties (JArr xs) = zip (map showNat [0..<length xs]) xs"
| "own_properties (JStr s) = zip (map showNat [0..<length s]) (map (\<lambda>c. JStr [c]) s)"
| "own_properties JNull = []"
| "own_properties (JBool b) = []"
| "own_properties (JNum n) = []"

fun priority_property :: "jsval \<Rightarrow> jsval option" where
  "priority_property (JObj ps) = map_of ps (ascii ''priority'')"
| "priority_property v = None"

text \<open>
  The callback of \<^verbatim>\<open>parsed.map\<close>: \<open>None\<close> when it throws (reading a property of null).
\<close>

definition spread_with_priority :: "jsval \<Rightarrow> jsval" where
  "spread_with_priority todo =
     JObj (define_property (ascii ''priority'')
             (case priority_property todo of
                None \<Rightarrow> JStr (ascii ''medium'')
              | Some v \<Rightarrow> if truthy v then v else JStr (ascii ''medium''))
             (own_properties todo))"

definition withPriority :: "jsval \<Rightarrow> jsval option" where
  "withPriority todo = (if todo = JNull then None else Some (spread_with_priority todo))"

text \<open>
  What the load effect does with the saved string (\<open>None\<close>: the key is absent):
  \<^verbatim>\<open>setTodos\<close> is not called, or it is called with a list of values. \<open>OutsideModel\<close>
  marks the strings on which the model of \<^verbatim>\<open>JSON.parse\<close> says nothing.
\<close>

datatype load_outcome = NoSetTodos | SetTodos "jsval list" | OutsideModel

definition load :: "jsstring option \<Rightarrow> load_outcome" where
  "load saved =
     (case saved of
        None \<Rightarrow> NoSetTodos
      | Some str \<Rightarrow>
          if str = [] then NoSetTodos
          else
            (case JSON_parse str of
               Unmodelled \<Rightarrow> OutsideModel
             | SyntaxError \<Rightarrow> SetTodos []
             | Parsed parsed \<Rightarrow>
                 (case parsed of
                    JArr xs \<Rightarrow>
                      (case those (map withPriority xs) of
                         None \<Rightarrow> SetTodos []
                       | Some todosWithPriority \<Rightarrow> SetTodos todosWithPriority)
                  | _ \<Rightarrow> SetTodos [])))"

text \<open>
  The string the save effect writes once the load effect has run on \<open>store_value\<close>
  and nothing else has changed the items.
\<close>

definition load_then_save :: "jsstring \<Rightarrow> jsstring option" where
  "load_then_save store_value =
     (case load (Some store_value) of
        NoSetTodos \<Rightarrow> Some (JSON_stringify (JArr []))
      | SetTodos xs \<Rightarrow> Some (JSON_stringify (JArr xs))
      | OutsideModel \<Rightarrow> None)"

text \<open>
  An item-like record, in the words of the specification: an object with a number
  \<^verbatim>\<open>id\<close>, a string \<^verbatim>\<open>text\<close>, a boolean \<^verbatim>\<open>completed\<close> and, when it has a
  \<^verbatim>\<open>priority\<close>, one of the three priorities.
\<close>

definition is_number :: "jsval option \<Rightarrow> bool" where
  "is_number v = (case v of Some (JNum n) \<Rightarrow> True | _ \<Rightarrow> False)"

definition is_string :: "jsval option \<Rightarrow> bool" where
  "is_string v = (case v of Some (JStr s) \<Rightarrow> True | _ \<Rightarrow> False)"

definition is_boolean :: "jsval option \<Rightarrow> bool" where
  "is_boolean v = (case v of Some (JBool b) \<Rightarrow> True | _ \<Rightarrow> False)"

definition item_like :: "jsval \<Rightarrow> bool" where
  "item_like x =
     (case x of
        JObj ps \<Rightarrow>
          is_number (map_of ps (ascii ''id'')) \<and> is_string (map_of ps (ascii ''text'')) \<and>
          is_boolean (map_of ps (ascii ''completed'')) \<and>
          (map_of ps (ascii ''priority'') = None \<or>
           map_of ps (ascii ''priority'') = Some (JStr (ascii ''high'')) \<or>
           map_of ps (ascii ''priority'') = Some (JStr (ascii ''medium'')) \<or>
           map_of ps (ascii ''priority'') = Some (JStr (ascii ''low'')))
      | _ \<Rightarrow> False)"

definition has_priority :: "jsval \<Rightarrow> bool" where
  "has_priority x = (priority_property x \<noteq> None)"

definition upgraded :: "jsval \<Rightarrow> jsval" where
  "upgraded x =
     (case x of
        JObj ps \<Rightarrow> if has_priority x then x
                   else JObj (ps @ [(ascii ''priority'', JStr (ascii ''medium''))])
      | _ \<Rightarrow> x)"

text \<open>
  A string literal of a JSON text, for the examples: the ASCII text between double
  quotes.
\<close>

definition quoted :: "string \<Rightarrow> jsstring" where
  "quoted s = [0x22] @ ascii s @ [0x22]"

definition spaced_store_value :: jsstring where
  "spaced_store_value =
     ascii ''[{'' @ quoted ''id'' @ ascii '': 1, '' @ quoted ''text'' @ ascii '': '' @ quoted ''a'' @
     ascii '', '' @ quoted ''completed'' @ ascii '': false, '' @ quoted ''priority'' @ ascii '': '' @
     quoted ''high'' @ ascii ''}]''"

definition compact_store_value :: jsstring where
  "compact_store_value =
     ascii ''[{'' @ quoted ''id'' @ ascii '':1,'' @ quoted ''text'' @ ascii '':'' @ quoted ''a'' @
     ascii '','' @ quoted ''completed'' @ ascii '':false,'' @ quoted ''priority'' @ ascii '':'' @
     quoted ''high'' @ ascii ''}]''"

definition old_store_value :: jsstring where
  "old_store_value =
     ascii ''[{'' @ quoted ''id'' @ ascii '':1,'' @ quoted ''text'' @ ascii '':'' @ quoted ''a'' @
     ascii '','' @ quoted ''completed'' @ ascii '':false}]''"

definition untyped_store_value :: jsstring where
  "untyped_store_value =
     ascii ''[7,{'' @ quoted ''id'' @ ascii '':1,'' @ quoted ''priority'' @ ascii '':'' @
     quoted [] @ ascii ''}]''"

definition item_a :: "Priority \<Rightarrow> Todo" where
  "item_a p = \<lparr>todo_id = 1, todo_text = ascii ''a'', todo_completed = False, todo_priority = p\<rparr>"

section \<open>Items as values of the host language\<close>

fun priorityName :: "Priority \<Rightarrow> jsstring" where
  "priorityName High = ascii ''high''"
| "priorityName Medium = ascii ''medium''"
| "priorityName Low = ascii ''low''"

definition todo_to_js :: "Todo \<Rightarrow> jsval" where
  "todo_to_js todo =
     JObj [(ascii ''id'', JNum (todo_id todo)),
           (ascii ''text'', JStr (todo_text todo)),
           (ascii ''completed'', JBool (todo_completed todo)),
           (ascii ''priority'', JStr (priorityName (todo_priority todo)))]"

definition save :: "Todo list \<Rightarrow> jsstring" where
  "save items = JSON_stringify (JArr (map todo_to_js items))"

section \<open>Export\<close>

text \<open>
  What the program reads from a \<^verbatim>\<open>Date\<close> object: the results of the methods it calls
  (\<^verbatim>\<open>toLocaleString\<close> is called with the locale \<^verbatim>\<open>zh-CN\<close>).
\<close>

record Date =
  toISOString :: jsstring
  toLocaleString :: jsstring
  getFullYear :: int
  getMonth :: int
  getDate :: int
  getHours :: int
  getMinutes :: int
  getSeconds :: int

text \<open>
  \<^verbatim>\<open>String.prototype.padStart\<close> with a pad string of one character, and
  \<^verbatim>\<open>String.prototype.repeat\<close> on a string of one character.
\<close>

definition padStart :: "nat \<Rightarrow> 16 word \<Rightarrow> jsstring \<Rightarrow> jsstring" where
  "padStart targetLength c s = replicate (targetLength - length s) c @ s"

definition repeat :: "16 word \<Rightarrow> nat \<Rightarrow> jsstring" where
  "repeat c n = replicate n c"

definition lengthToString :: "'a list \<Rightarrow> jsstring" where
  "lengthToString xs = numberToString (int (length xs))"

definition jsonContent :: "Date \<Rightarrow> Todo list \<Rightarrow> jsstring" where
  "jsonContent now todosToExport =
     JSON_stringify_indent2
       (JObj [(ascii ''exportTime'', JStr (toISOString now)),
              (ascii ''total'', JNum (int (length todosToExport))),
              (ascii ''completed'', JNum (int (length (filter todo_completed todosToExport)))),
              (ascii ''todos'', JArr (map todo_to_js todosToExport))])"

fun priorityIcon :: "Priority \<Rightarrow> jsstring" where
  "priorityIcon High = [0xD83D, 0xDD34]"
| "priorityIcon Medium = [0xD83D, 0xDFE1]"
| "priorityIcon Low = [0x26AA]"

definition txtLine :: "Todo \<Rightarrow> jsstring" where
  "txtLine todo =
     ascii ''['' @ (if todo_completed todo then [0x2713] else [0x2717]) @ ascii ''] '' @
     priorityIcon (todo_priority todo) @ ascii '' ['' @ priorityLabels (todo_priority todo) @
     ascii ''] '' @ todo_text todo"

definition txtContent :: "jsstring \<Rightarrow> Todo list \<Rightarrow> jsstring" where
  "txtContent dateStr todosToExport =
     (let txtHeader =
            [0x5F85, 0x529E, 0x4E8B, 0x9879, 0x5217, 0x8868] @ ascii '' - '' @
            [0x5BFC, 0x51FA, 0x65F6, 0x95F4] @ ascii '': '' @ dateStr @ [0x0A] @
            repeat 0x3D 50 @ [0x0A];
          txtBody = join [0x0A] (map txtLine todosToExport);
          txtFooter =
            [0x0A] @ repeat 0x3D 50 @ [0x0A] @
            [0x7EDF, 0x8BA1] @ ascii '': '' @ [0x5171] @ lengthToString todosToExport @
            [0x9879] @ ascii '' | '' @ [0x5DF2, 0x5B8C, 0x6210] @
            lengthToString (filter todo_completed todosToExport) @
            [0x9879] @ ascii '' | '' @ [0x672A, 0x5B8C, 0x6210] @
            lengthToString (filter (\<lambda>t. \<not> todo_completed t) todosToExport) @
            [0x9879, 0x0A] @
            [0x4F18, 0x5148, 0x7EA7] @ ascii '': '' @ [0x9AD8] @
            lengthToString (filter (\<lambda>t. todo_priority t = High) todosToExport) @
            [0x9879] @ ascii '' | '' @ [0x4E2D] @
            lengthToString (filter (\<lambda>t. todo_priority t = Medium) todosToExport) @
            [0x9879] @ ascii '' | '' @ [0x4F4E] @
            lengthToString (filter (\<lambda>t. todo_priority t = Low) todosToExport) @
            [0x9879]
      in txtHeader @ [0x0A] @ txtBody @ [0x0A] @ txtFooter)"

definition generateExportContent :: "Date \<Rightarrow> ExportFormat \<Rightarrow> Todo list \<Rightarrow> jsstring" where
  "generateExportContent now format todosToExport =
     (let dateStr = toLocaleString now in
      case format of
        Json \<Rightarrow> jsonContent now todosToExport
      | Csv \<Rightarrow> csvContent todosToExport
      | Txt \<Rightarrow> txtContent dateStr todosToExport)"

fun formatName :: "ExportFormat \<Rightarrow> jsstring" where
  "formatName Txt = ascii ''txt''"
| "formatName Json = ascii ''json''"
| "formatName Csv = ascii ''csv''"

fun mimeTypes :: "ExportFormat \<Rightarrow> jsstring" where
  "mimeTypes Txt = ascii ''text/plain;charset=utf-8''"
| "mimeTypes Json = ascii ''application/json;charset=utf-8''"
| "mimeTypes Csv = ascii ''text/csv;charset=utf-8''"

text \<open>
  What \<^verbatim>\<open>exportTodos\<close> does to the outside: it raises an alert, or it hands a content, a
  file name and a MIME type to \<^verbatim>\<open>downloadFile\<close>. It builds two \<^verbatim>\<open>Date\<close> objects: one
  inside \<^verbatim>\<open>generateExportContent\<close>, one for the file name.
\<close>

datatype export_effect = Alert jsstring | DownloadFile jsstring jsstring jsstring

definition nothing_selected :: jsstring where
  "nothing_selected = [0x6CA1, 0x6709, 0x9009, 0x4E2D, 0x7684, 0x5F85, 0x529E, 0x4E8B, 0x9879]"

definition nothing_to_export :: jsstring where
  "nothing_to_export = [0x6CA1, 0x6709, 0x5F85, 0x529E, 0x4E8B, 0x9879, 0x53EF, 0x5BFC, 0x51FA]"

definition exportTodos ::
  "Date \<Rightarrow> Date \<Rightarrow> ExportFormat \<Rightarrow> bool \<Rightarrow> state \<Rightarrow> export_effect \<times> state" where
  "exportTodos contentDate now format onlySelected s =
     (let todosToExport =
            (if onlySelected then filter (\<lambda>todo. todo_id todo |\<in>| selectedIds s) (todos s)
             else todos s)
      in if length todosToExport = 0
         then (Alert (if onlySelected then nothing_selected else nothing_to_export), s)
         else
           (let content = generateExportContent contentDate format todosToExport;
                timestamp =
                  numberToString (getFullYear now) @
                  padStart 2 0x30 (numberToString (getMonth now + 1)) @
                  padStart 2 0x30 (numberToString (getDate now)) @ ascii ''_'' @
                  padStart 2 0x30 (numberToString (getHours now)) @
                  padStart 2 0x30 (numberToString (getMinutes now)) @
                  padStart 2 0x30 (numberToString (getSeconds now));
                suffix = (if onlySelected then ascii ''_selected'' else []);
                filename = ascii ''todos'' @ suffix @ ascii ''_'' @ timestamp @ ascii ''.'' @
                           formatName format
            in (DownloadFile content filename (mimeTypes format),
                s\<lparr>exportDropdownOpen := False\<rparr>)))"

definition buy_milk :: Todo where
  "buy_milk = \<lparr>todo_id = 1, todo_text = ascii ''Buy milk'', todo_completed = False,
               todo_priority = High\<rparr>"

definition new_year :: Date where
  "new_year = \<lparr>toISOString = ascii ''2024-01-01T00:00:00.000Z'',
                toLocaleString = ascii ''2024/1/1 08:00:00'',
                getFullYear = 2024, getMonth = 0, getDate = 1,
                getHours = 8, getMinutes = 0, getSeconds = 0\<rparr>"

section \<open>Persistence\<close>

text \<open>
  \<^verbatim>\<open>localStorage\<close> maps keys to strings. The save effect writes the serialised items
  under the key \<^verbatim>\<open>todos\<close> once \<^verbatim>\<open>isHydrated\<close> holds.
\<close>

type_synonym storage = "jsstring \<Rightarrow> jsstring option"

definition todos_key :: jsstring where
  "todos_key = ascii ''todos''"

definition saveEffect :: "state \<Rightarrow> storage \<Rightarrow> storage" where
  "saveEffect s store = (if isHydrated s then store(todos_key \<mapsto> save (todos s)) else store)"

text \<open>
  The load effect on the state. Its argument is what the effect passes to
  \<^verbatim>\<open>setTodos\<close>, read at the type the source gives it (\<open>None\<close>: \<^verbatim>\<open>setTodos\<close> is not
  called); \<^verbatim>\<open>load\<close> above computes it from the saved string. Then it sets
  \<^verbatim>\<open>isHydrated\<close>.
\<close>

definition loadEffect :: "Todo list option \<Rightarrow> state \<Rightarrow> state" where
  "loadEffect loaded s =
     (case loaded of
        None \<Rightarrow> s\<lparr>isHydrated := True\<rparr>
      | Some todosWithPriority \<Rightarrow> s\<lparr>todos := todosWithPriority, isHydrated := True\<rparr>)"

text \<open>
  An event is the run of the load effect or a command of the user. The save effect
  has the dependencies \<^verbatim>\<open>[todos, isHydrated]\<close>: it runs after an event that called
  \<^verbatim>\<open>setTodos\<close> (always with a fresh array) or changed \<^verbatim>\<open>isHydrated\<close>.
\<close>

datatype event = LoadEffect "Todo list option" | Handler command

fun calls_setTodos :: "(jsstring \<Rightarrow> jsstring) \<Rightarrow> command \<Rightarrow> state \<Rightarrow> bool" where
  "calls_setTodos lc (Add text priority now) s =
     (trim text \<noteq> [] \<and> \<not> list_ex (\<lambda>todo. lc (todo_text todo) = lc (trim text)) (todos s))"
| "calls_setTodos lc (Toggle i) s = True"
| "calls_setTodos lc (Remove i) s = True"
| "calls_setTodos lc (ToggleSelect i) s = False"
| "calls_setTodos lc ToggleSelectAll s = False"
| "calls_setTodos lc BatchDelete s = True"

fun dependencies_changed :: "(jsstring \<Rightarrow> jsstring) \<Rightarrow> event \<Rightarrow> state \<Rightarrow> bool" where
  "dependencies_changed lc (LoadEffect loaded) s = (loaded \<noteq> None \<or> \<not> isHydrated s)"
| "dependencies_changed lc (Handler c) s = calls_setTodos lc c s"

fun handle :: "(jsstring \<Rightarrow> jsstring) \<Rightarrow> event \<Rightarrow> state \<Rightarrow> state" where
  "handle lc (LoadEffect loaded) s = loadEffect loaded s"
| "handle lc (Handler c) s = step lc c s"

definition render :: "(jsstring \<Rightarrow> jsstring) \<Rightarrow> event \<Rightarrow> state \<times> storage \<Rightarrow> state \<times> storage" where
  "render lc ev app =
     (let s = fst app; store = snd app; s' = handle lc ev s
      in (s', if dependencies_changed lc ev s then saveEffect s' store else store))"

definition app_run :: "(jsstring \<Rightarrow> jsstring) \<Rightarrow> event list \<Rightarrow> state \<times> storage \<Rightarrow> state \<times> storage" where
  "app_run lc evs app = fold (render lc) evs app"

definition old_store :: storage where
  "old_store = Map.empty(todos_key \<mapsto> compact_store_value)"

text \<open>
  The store holds the serialised items of the state under the key \<^verbatim>\<open>todos\<close> and is
  otherwise the store \<open>store0\<close>.
\<close>

definition in_sync :: "storage \<Rightarrow> state \<times> storage \<Rightarrow> bool" where
  "in_sync store0 app \<longleftrightarrow>
     isHydrated (fst app) \<and> snd app = store0(todos_key \<mapsto> save (todos (fst app)))"

section \<open>Properties of the csv export\<close>

lemma join_newline_rows:
  "join sep (h # rows) = h @ concat (map (\<lambda>r. sep @ r) rows)"
  by (induction rows arbitrary: h) simp_all

lemma replace_quotes_append:
  "replace_quotes (a @ b) = replace_quotes a @ replace_quotes b"
  by (simp add: replace_quotes_def)

lemma replace_quotes_no_quote:
  "0x22 \<notin> set s \<Longrightarrow> replace_quotes s = s"
  by (induction s) (simp_all add: replace_quotes_def)

lemma replace_quotes_Cons:
  "replace_quotes (c # s) = (if c = 0x22 then [0x22, 0x22] else [c]) @ replace_quotes s"
  by (simp add: replace_quotes_def)

lemma csvRow_say_hi:
  "csvRow say_hi = 0x09 # ascii ''1,'' @ [0x22] @ ascii ''Say '' @ [0x22, 0x22] @ ascii ''hi'' @
       [0x22, 0x22, 0x22] @ ascii '',false,'' @ [0x672A, 0x5B8C, 0x6210] @ ascii '','' @ [0x4E2D]"
  by (simp add: csvRow_def say_hi_def ascii_def numberToString_def showNat.simps
      replace_quotes_def booleanToString_def completedLabel_def)

text \<open>
  Claim C1, as the code has it. The csv export is the byte-order mark, the header
  \<^verbatim>\<open>ID,Text,Completed,CompletedText,Priority\<close> and, for each item in order, a newline and
  the item's row. A row is a tab character, the identifier, the text between double
  quotes with each embedded double quote doubled, the completed flag, the two-state
  completion label and the priority label, separated by commas. The row of the item
  with text \<^verbatim>\<open>Say "hi"\<close> holds \<^verbatim>\<open>"Say ""hi"""\<close>.
\<close>

theorem csv_export_layout:
  "csvContent items =
     0xFEFF # ascii ''ID,Text,Completed,CompletedText,Priority'' @
       concat (map (\<lambda>t. 0x0A # csvRow t) items)
   \<and> (\<forall>t. csvRow t =
          0x09 # numberToString (todo_id t) @
          0x2C # 0x22 # replace_quotes (todo_text t) @
          0x22 # 0x2C # booleanToString (todo_completed t) @
          0x2C # completedLabel (todo_completed t) @
          0x2C # priorityLabels (todo_priority t))
   \<and> replace_quotes [] = []
   \<and> (\<forall>c s. replace_quotes (c # s) =
          (if c = 0x22 then [0x22, 0x22] else [c]) @ replace_quotes s)
   \<and> csvContent [say_hi] =
       0xFEFF # ascii ''ID,Text,Completed,CompletedText,Priority'' @ 0x0A # 0x09 # ascii ''1,'' @
       [0x22] @ ascii ''Say '' @ [0x22, 0x22] @ ascii ''hi'' @ [0x22, 0x22, 0x22] @
       ascii '',false,'' @ [0x672A, 0x5B8C, 0x6210] @ ascii '','' @ [0x4E2D]"
proof -
  have layout: "csvContent ts =
     0xFEFF # ascii ''ID,Text,Completed,CompletedText,Priority'' @
       concat (map (\<lambda>t. 0x0A # csvRow t) ts)" for ts
    by (simp add: csvContent_def csvHeader_def join_newline_rows comp_def)
  have row: "csvRow t =
          0x09 # numberToString (todo_id t) @
          0x2C # 0x22 # replace_quotes (todo_text t) @
          0x22 # 0x2C # booleanToString (todo_completed t) @
          0x2C # completedLabel (todo_completed t) @
          0x2C # priorityLabels (todo_priority t)" for t
    by (simp add: csvRow_def ascii_def)
  have ex: "csvContent [say_hi] =
       0xFEFF # ascii ''ID,Text,Completed,CompletedText,Priority'' @ 0x0A # 0x09 # ascii ''1,'' @
       [0x22] @ ascii ''Say '' @ [0x22, 0x22] @ ascii ''hi'' @ [0x22, 0x22, 0x22] @
       ascii '',false,'' @ [0x672A, 0x5B8C, 0x6210] @ ascii '','' @ [0x4E2D]"
    unfolding layout by (simp add: csvRow_say_hi)
  show ?thesis
    using layout row ex replace_quotes_Cons by (simp add: replace_quotes_def)
qed

text \<open>
  Claim C1 as the specification words it (the first field of a row is the identifier)
  fails: the code writes a tab character before the identifier.
\<close>

theorem csv_first_field_counterexample:
  "csvContent [say_hi] \<noteq> csv_spec [say_hi]"
  by (simp add: csvContent_def csv_spec_def csvHeader_def csvRow_def csv_spec_row_def say_hi_def
      ascii_def numberToString_def showNat.simps)

section \<open>Properties of the selection\<close>

lemma fcard_ids_distinct:
  "distinct xs \<Longrightarrow> fcard (fset_of_list xs) = length xs"
  by (simp add: fcard.rep_eq fset_of_list.rep_eq distinct_card)

lemma toggleSelectAll_from_empty:
  assumes "selectedIds s = {||}"
  shows "toggleSelectAll s = (if todos s = [] then s else s\<lparr>selectedIds := item_ids s\<rparr>)"
proof -
  have "s\<lparr>selectedIds := {||}\<rparr> = s" using assms by simp
  then show ?thesis using assms by (simp add: toggleSelectAll_def item_ids_def fcard_fempty)
qed

lemma toggleSelectAll_from_full:
  assumes "distinct (map todo_id (todos s))" and "selectedIds s = item_ids s"
  shows "toggleSelectAll s = s\<lparr>selectedIds := {||}\<rparr>"
  using assms fcard_ids_distinct [of "map todo_id (todos s)"]
  by (simp add: toggleSelectAll_def item_ids_def)

lemma toggleSelectAll_from_partial:
  assumes "fcard (selectedIds s) \<noteq> length (todos s)"
  shows "toggleSelectAll s = s\<lparr>selectedIds := item_ids s\<rparr>"
  using assms by (simp add: toggleSelectAll_def item_ids_def)

text \<open>
  Claim C2, as the code has it. In a state whose item identifiers are pairwise distinct,
  applying \<^verbatim>\<open>toggleSelectAll\<close> twice gives the state back when the selection is empty
  or is the full set of identifiers; from a partial selection (neither empty nor of the
  size of the collection) two applications leave the selection empty.
\<close>

theorem toggleSelectAll_twice:
  assumes "distinct (map todo_id (todos s))"
  shows "(selectedIds s = {||} \<or> selectedIds s = item_ids s \<longrightarrow>
            toggleSelectAll (toggleSelectAll s) = s)
       \<and> (selectedIds s \<noteq> {||} \<and> fcard (selectedIds s) \<noteq> length (todos s) \<longrightarrow>
            selectedIds (toggleSelectAll (toggleSelectAll s)) = {||})"
proof (intro conjI impI)
  assume "selectedIds s = {||} \<or> selectedIds s = item_ids s"
  then show "toggleSelectAll (toggleSelectAll s) = s"
  proof
    assume a: "selectedIds s = {||}"
    show ?thesis
    proof (cases "todos s = []")
      case True
      with a show ?thesis by (simp add: toggleSelectAll_from_empty)
    next
      case False
      let ?s1 = "s\<lparr>selectedIds := item_ids s\<rparr>"
      have 1: "toggleSelectAll s = ?s1" using a False by (simp add: toggleSelectAll_from_empty)
      have "toggleSelectAll ?s1 = ?s1\<lparr>selectedIds := {||}\<rparr>"
        by (rule toggleSelectAll_from_full) (use assms in \<open>simp_all add: item_ids_def\<close>)
      also have "\<dots> = s" using a by simp
      finally show ?thesis using 1 by simp
    qed
  next
    assume a: "selectedIds s = item_ids s"
    let ?s1 = "s\<lparr>selectedIds := {||}\<rparr>"
    have 1: "toggleSelectAll s = ?s1" using assms a by (rule toggleSelectAll_from_full)
    have 2: "toggleSelectAll ?s1 = (if todos s = [] then ?s1 else ?s1\<lparr>selectedIds := item_ids s\<rparr>)"
      using toggleSelectAll_from_empty [of ?s1] by (simp add: item_ids_def)
    have 3: "todos s = [] \<Longrightarrow> ?s1 = s" using a by (simp add: item_ids_def)
    have 4: "?s1\<lparr>selectedIds := item_ids s\<rparr> = s" using a by simp
    show ?thesis using 1 2 3 4 by (cases "todos s = []") simp_all
  qed
next
  assume a: "selectedIds s \<noteq> {||} \<and> fcard (selectedIds s) \<noteq> length (todos s)"
  let ?s1 = "s\<lparr>selectedIds := item_ids s\<rparr>"
  have 1: "toggleSelectAll s = ?s1" using a by (simp add: toggleSelectAll_from_partial)
  have "toggleSelectAll ?s1 = ?s1\<lparr>selectedIds := {||}\<rparr>"
    by (rule toggleSelectAll_from_full) (use assms in \<open>simp_all add: item_ids_def\<close>)
  with 1 show "selectedIds (toggleSelectAll (toggleSelectAll s)) = {||}" by simp
qed

text \<open>
  Claim C2 as stated fails for a partial selection: with items 1 and 2 and item 1
  selected, the first call selects both and the second clears the selection.
\<close>

theorem toggleSelectAll_partial_counterexample:
  "selectedIds (toggleSelectAll (toggleSelectAll (two_items\<lparr>selectedIds := {|1|}\<rparr>))) \<noteq>
   selectedIds (two_items\<lparr>selectedIds := {|1|}\<rparr>)"
  by (simp add: toggleSelectAll_def two_items_def initial_state_def fcard_finsert_if fcard_fempty
      fempty_not_finsert)

theorem toggleSelectAll_twice_witness:
  "distinct (map todo_id (todos two_items))
   \<and> selectedIds two_items = {||}
   \<and> toggleSelectAll (toggleSelectAll two_items) = two_items
   \<and> selectedIds (two_items\<lparr>selectedIds := {|1|}\<rparr>) \<noteq> {||}
   \<and> fcard (selectedIds (two_items\<lparr>selectedIds := {|1|}\<rparr>)) \<noteq> length (todos (two_items\<lparr>selectedIds := {|1|}\<rparr>))
   \<and> selectedIds (toggleSelectAll (toggleSelectAll (two_items\<lparr>selectedIds := {|1|}\<rparr>))) = {||}"
proof -
  have d: "distinct (map todo_id (todos two_items))"
    by (simp add: two_items_def initial_state_def)
  have d': "distinct (map todo_id (todos (two_items\<lparr>selectedIds := {|1|}\<rparr>)))"
    by (simp add: two_items_def initial_state_def)
  have e: "selectedIds two_items = {||}" by (simp add: two_items_def initial_state_def)
  have p: "fcard (selectedIds (two_items\<lparr>selectedIds := {|1|}\<rparr>)) \<noteq> length (todos (two_items\<lparr>selectedIds := {|1|}\<rparr>))"
    by (simp add: two_items_def initial_state_def fcard_finsert_if fcard_fempty)
  from toggleSelectAll_twice [OF d] toggleSelectAll_twice [OF d'] d e p show ?thesis by simp
qed



lemma selection_ok_iff:
  "selection_ok s \<longleftrightarrow> fset (selectedIds s) \<subseteq> todo_id ` set (todos s)"
  by (simp add: selection_ok_def item_ids_def less_eq_fset.rep_eq fset_of_list.rep_eq)

lemma item_ids_member:
  "i |\<in>| item_ids s \<longleftrightarrow> i \<in> todo_id ` set (todos s)"
  by (simp add: item_ids_def fset_of_list.rep_eq)

lemma add_todos_cases:
  "todos (add lc now text p s) =
     (if trim text \<noteq> [] \<and> \<not> list_ex (\<lambda>todo. lc (todo_text todo) = lc (trim text)) (todos s)
      then todos s @ [\<lparr>todo_id = now, todo_text = trim text, todo_completed = False,
                       todo_priority = p\<rparr>]
      else todos s)"
  by (simp add: add_def addTodo_def Let_def)

lemma add_selectedIds [simp]:
  "selectedIds (add lc now text p s) = selectedIds s"
  by (simp add: add_def addTodo_def Let_def)

lemma toggleTodo_ids [simp]:
  "map todo_id (todos (toggleTodo i s)) = map todo_id (todos s)"
  by (simp add: toggleTodo_def comp_def)

lemma selection_ok_add: "selection_ok s \<Longrightarrow> selection_ok (add lc now text p s)"
  by (auto simp add: selection_ok_iff add_todos_cases)

lemma selection_ok_toggleTodo: "selection_ok s \<Longrightarrow> selection_ok (toggleTodo i s)"
proof -
  have "todo_id ` set (todos (toggleTodo i s)) = todo_id ` set (todos s)"
    using toggleTodo_ids [of i s] by (metis list.set_map)
  moreover have "selectedIds (toggleTodo i s) = selectedIds s" by (simp add: toggleTodo_def)
  moreover assume "selection_ok s"
  ultimately show ?thesis by (simp add: selection_ok_iff)
qed

lemma selection_ok_deleteTodo: "selection_ok s \<Longrightarrow> selection_ok (deleteTodo i s)"
  by (auto simp add: selection_ok_iff deleteTodo_def)

lemma selection_ok_toggleSelect:
  "selection_ok s \<Longrightarrow> i |\<in>| item_ids s \<Longrightarrow> selection_ok (toggleSelect i s)"
  by (auto simp add: selection_ok_iff item_ids_member toggleSelect_def)

lemma selection_ok_toggleSelectAll: "selection_ok (toggleSelectAll s)"
  by (simp add: selection_ok_def item_ids_def toggleSelectAll_def)

lemma selection_ok_batchDelete: "selection_ok (batchDelete s)"
  by (simp add: selection_ok_def batchDelete_def)

text \<open>
  Claim C3, as the code has it. Every command keeps the selection inside the
  identifiers of the collection, provided \<^verbatim>\<open>toggleSelect\<close> is called with the identifier
  of an item. \<^verbatim>\<open>toggleSelect\<close> does not check its argument: an identifier that is not
  selected is added to the selection, whether or not an item has it. \<^verbatim>\<open>deleteTodo\<close>
  removes the identifier from the selection and from the collection.
\<close>

theorem selection_invariant:
  "(selection_ok s \<and> (\<forall>i. c = ToggleSelect i \<longrightarrow> i |\<in>| item_ids s)
      \<longrightarrow> selection_ok (step lc c s))
   \<and> (i |\<notin>| selectedIds s \<longrightarrow> selectedIds (toggleSelect i s) = finsert i (selectedIds s))
   \<and> i |\<notin>| selectedIds (deleteTodo i s)
   \<and> i |\<notin>| item_ids (deleteTodo i s)"
proof (intro conjI impI)
  assume a: "selection_ok s \<and> (\<forall>i. c = ToggleSelect i \<longrightarrow> i |\<in>| item_ids s)"
  show "selection_ok (step lc c s)"
  proof (cases c)
    case (Add a p n)
    with a show ?thesis by (simp add: selection_ok_add)
  next
    case (Toggle j)
    with a show ?thesis by (simp add: selection_ok_toggleTodo)
  next
    case (Remove j)
    with a show ?thesis by (simp add: selection_ok_deleteTodo)
  next
    case (ToggleSelect j)
    with a show ?thesis by (simp add: selection_ok_toggleSelect)
  next
    case ToggleSelectAll
    then show ?thesis by (simp add: selection_ok_toggleSelectAll)
  next
    case BatchDelete
    then show ?thesis by (simp add: selection_ok_batchDelete)
  qed
next
  assume "i |\<notin>| selectedIds s"
  then show "selectedIds (toggleSelect i s) = finsert i (selectedIds s)"
    by (simp add: toggleSelect_def)
next
  show "i |\<notin>| selectedIds (deleteTodo i s)" by (simp add: deleteTodo_def)
next
  show "i |\<notin>| item_ids (deleteTodo i s)" by (auto simp add: item_ids_member deleteTodo_def)
qed

text \<open>
  Claim C3 as stated fails: on the empty collection, \<^verbatim>\<open>toggleSelect\<close> with the unknown
  identifier 7 changes the state and breaks the invariant.
\<close>

theorem toggleSelect_unknown_id_counterexample:
  "selection_ok initial_state
   \<and> 7 |\<notin>| item_ids initial_state
   \<and> toggleSelect 7 initial_state \<noteq> initial_state
   \<and> \<not> selection_ok (toggleSelect 7 initial_state)"
  by (simp add: selection_ok_def item_ids_def toggleSelect_def initial_state_def)

theorem selection_invariant_witness:
  "selection_ok two_items
   \<and> 1 |\<in>| item_ids two_items
   \<and> selection_ok (step toLowerCase_ascii (ToggleSelect 1) two_items)
   \<and> 7 |\<notin>| selectedIds two_items
   \<and> selectedIds (toggleSelect 7 two_items) = {|7|}"
proof -
  have a: "selection_ok two_items" by (simp add: selection_ok_def two_items_def initial_state_def)
  have b: "1 |\<in>| item_ids two_items" by (simp add: item_ids_def two_items_def initial_state_def)
  have c: "7 |\<notin>| selectedIds two_items" by (simp add: two_items_def initial_state_def)
  have d: "selectedIds two_items = {||}" by (simp add: two_items_def initial_state_def)
  from selection_invariant [of two_items "ToggleSelect 1" toLowerCase_ascii 7] a b c d
  show ?thesis by simp
qed

section \<open>Properties of adding items\<close>

lemma add_ids_cases:
  "map todo_id (todos (add lc now text p s)) = map todo_id (todos s) \<or>
   map todo_id (todos (add lc now text p s)) = map todo_id (todos s) @ [now]"
  by (simp add: add_todos_cases)

lemma run_Cons: "run lc (c # cs) s = run lc cs (step lc c s)"
  by (simp add: run_def)

lemma run_Nil: "run lc [] s = s"
  by (simp add: run_def)

lemma ids_increasing_run:
  "sorted_wrt (<) (map todo_id (todos s)) \<Longrightarrow>
   (\<forall>t \<in> set (todos s). \<forall>c \<in> set calls. todo_id t < clock_of c) \<Longrightarrow>
   sorted_wrt (<) (map clock_of calls) \<Longrightarrow>
   sorted_wrt (<) (map todo_id (todos (run lc (add_calls calls) s)))"
proof (induction calls arbitrary: s)
  case Nil
  then show ?case by (simp add: add_calls_def run_Nil)
next
  case (Cons call calls)
  obtain a p n where call: "call = (a, p, n)" by (cases call)
  let ?s' = "add lc n a p s"
  have ids: "map todo_id (todos ?s') = map todo_id (todos s) \<or>
             map todo_id (todos ?s') = map todo_id (todos s) @ [n]"
    by (rule add_ids_cases)
  have lt: "\<forall>t \<in> set (todos s). todo_id t < n"
    using Cons.prems(2) call by (simp add: clock_of_def)
  have later: "\<forall>c \<in> set calls. n < clock_of c"
    using Cons.prems(3) call by (simp add: clock_of_def)
  have 1: "sorted_wrt (<) (map todo_id (todos ?s'))"
    using ids Cons.prems(1) lt by (auto simp add: sorted_wrt_append)
  have "\<forall>t \<in> set (todos ?s'). t \<in> set (todos s) \<or> todo_id t = n"
    by (auto simp add: add_todos_cases split: if_splits)
  then have 2: "\<forall>t \<in> set (todos ?s'). \<forall>c \<in> set calls. todo_id t < clock_of c"
    using Cons.prems(2) later by auto
  have 3: "sorted_wrt (<) (map clock_of calls)" using Cons.prems(3) by simp
  have "run lc (add_calls (call # calls)) s = run lc (add_calls calls) ?s'"
    by (simp add: add_calls_def run_Cons call)
  with Cons.IH [OF 1 2 3] show ?case by simp
qed

text \<open>
  Claim C4, as the code has it. The identifier of a newly added item is the clock
  reading of the call. Hence, when the clock readings of a sequence of \<^verbatim>\<open>add\<close> calls
  are strictly increasing and later than the identifiers already in the collection
  (themselves strictly increasing), the identifiers of the resulting collection are
  strictly increasing: each new identifier is greater than all earlier ones.
\<close>

theorem add_ids_follow_clock:
  "(trim raw \<noteq> [] \<and> \<not> list_ex (\<lambda>todo. lc (todo_text todo) = lc (trim raw)) (todos s)
      \<longrightarrow> map todo_id (todos (add lc now raw p s)) = map todo_id (todos s) @ [now])
   \<and> (sorted_wrt (<) (map todo_id (todos s))
        \<and> (\<forall>t \<in> set (todos s). \<forall>c \<in> set calls. todo_id t < clock_of c)
        \<and> sorted_wrt (<) (map clock_of calls)
      \<longrightarrow> sorted_wrt (<) (map todo_id (todos (run lc (add_calls calls) s))))"
  using ids_increasing_run [of s calls lc] by (simp add: add_todos_cases)

lemma same_tick_run:
  "todos (run toLowerCase_ascii (add_calls same_tick_calls) initial_state) =
     [\<lparr>todo_id = 5, todo_text = ascii ''a'', todo_completed = False, todo_priority = Medium\<rparr>,
      \<lparr>todo_id = 5, todo_text = ascii ''b'', todo_completed = False, todo_priority = Medium\<rparr>]"
  by (simp add: same_tick_calls_def add_calls_def run_def add_def addTodo_def initial_state_def
      trim_def isWhiteSpace_def ascii_def toLowerCase_ascii_def Let_def)

lemma set_back_run:
  "todos (run toLowerCase_ascii (add_calls set_back_calls) initial_state) =
     [\<lparr>todo_id = 10, todo_text = ascii ''a'', todo_completed = False, todo_priority = Medium\<rparr>,
      \<lparr>todo_id = 5, todo_text = ascii ''b'', todo_completed = False, todo_priority = Medium\<rparr>]"
  by (simp add: set_back_calls_def add_calls_def run_def add_def addTodo_def initial_state_def
      trim_def isWhiteSpace_def ascii_def toLowerCase_ascii_def Let_def)

text \<open>
  Claim C4 as stated fails: two successful \<^verbatim>\<open>add\<close> calls at the same clock reading (the
  same millisecond) give two items with the same identifier, and a second call at an
  earlier reading (the wall clock was set back) gives the smaller identifier.
\<close>

theorem clock_ids_counterexample:
  "length (todos (run toLowerCase_ascii (add_calls same_tick_calls) initial_state)) = 2
   \<and> \<not> todo_id (todos (run toLowerCase_ascii (add_calls same_tick_calls) initial_state) ! 0)
        < todo_id (todos (run toLowerCase_ascii (add_calls same_tick_calls) initial_state) ! 1)
   \<and> length (todos (run toLowerCase_ascii (add_calls set_back_calls) initial_state)) = 2
   \<and> \<not> todo_id (todos (run toLowerCase_ascii (add_calls set_back_calls) initial_state) ! 0)
        < todo_id (todos (run toLowerCase_ascii (add_calls set_back_calls) initial_state) ! 1)"
  by (simp add: same_tick_run set_back_run)

theorem add_ids_follow_clock_witness:
  "trim (ascii '' a '') \<noteq> []
   \<and> \<not> list_ex (\<lambda>todo. toLowerCase_ascii (todo_text todo) = toLowerCase_ascii (trim (ascii '' a '')))
         (todos initial_state)
   \<and> map todo_id (todos (add toLowerCase_ascii 5 (ascii '' a '') Low initial_state)) = [5]
   \<and> sorted_wrt (<) (map clock_of rising_calls)
   \<and> sorted_wrt (<) (map todo_id (todos (run toLowerCase_ascii (add_calls rising_calls) initial_state)))"
proof -
  have a: "trim (ascii '' a '') \<noteq> []" by (simp add: trim_def isWhiteSpace_def ascii_def)
  have b: "todos initial_state = []" by (simp add: initial_state_def)
  have c: "sorted_wrt (<) (map clock_of rising_calls)" by (simp add: rising_calls_def clock_of_def)
  from add_ids_follow_clock [where raw = "ascii '' a ''" and lc = toLowerCase_ascii
      and s = initial_state and now = 5 and p = Low and calls = rising_calls]
    a b c show ?thesis by simp
qed

lemma no_duplicate_text_add:
  "no_duplicate_text lc s \<Longrightarrow> no_duplicate_text lc (add lc now text p s)"
  by (auto simp add: no_duplicate_text_def add_todos_cases list_ex_iff)

lemma no_duplicate_text_toggleTodo:
  "no_duplicate_text lc s \<Longrightarrow> no_duplicate_text lc (toggleTodo i s)"
proof -
  have "map (\<lambda>todo. lc (todo_text todo)) (todos (toggleTodo i s)) =
        map (\<lambda>todo. lc (todo_text todo)) (todos s)"
    by (simp add: toggleTodo_def comp_def if_distrib cong: if_cong)
  then show "no_duplicate_text lc s \<Longrightarrow> ?thesis" by (simp add: no_duplicate_text_def)
qed

lemma no_duplicate_text_step:
  "no_duplicate_text lc s \<Longrightarrow> no_duplicate_text lc (step lc c s)"
proof (cases c)
  case (Add a p n)
  then show "no_duplicate_text lc s \<Longrightarrow> ?thesis" by (simp add: no_duplicate_text_add)
next
  case (Toggle i)
  then show "no_duplicate_text lc s \<Longrightarrow> ?thesis" by (simp add: no_duplicate_text_toggleTodo)
next
  case (Remove i)
  then show "no_duplicate_text lc s \<Longrightarrow> ?thesis"
    by (simp add: no_duplicate_text_def deleteTodo_def distinct_map_filter)
next
  case (ToggleSelect i)
  then show "no_duplicate_text lc s \<Longrightarrow> ?thesis"
    by (simp add: no_duplicate_text_def toggleSelect_def)
next
  case ToggleSelectAll
  then show "no_duplicate_text lc s \<Longrightarrow> ?thesis"
    by (simp add: no_duplicate_text_def toggleSelectAll_def)
next
  case BatchDelete
  then show "no_duplicate_text lc s \<Longrightarrow> ?thesis"
    by (simp add: no_duplicate_text_def batchDelete_def distinct_map_filter)
qed

lemma no_duplicate_text_run:
  "no_duplicate_text lc s \<Longrightarrow> no_duplicate_text lc (run lc cs s)"
  by (induction cs arbitrary: s) (simp_all add: run_Nil run_Cons no_duplicate_text_step)

text \<open>
  Claim C6. \<^verbatim>\<open>add\<close> trims the text. When the trimmed text is empty, or when the text of
  an existing item equals it after the case mapping, the items and the selection are
  unchanged. Otherwise exactly one item is appended, with the trimmed text, not
  completed, with the given priority. Hence after any sequence of \<^verbatim>\<open>add\<close> calls from the
  initial state, and after any sequence of commands from a state without duplicates,
  no two items have texts that are equal after the case mapping.
\<close>

theorem add_guards_and_appends:
  "(trim raw = [] \<longrightarrow>
      todos (add lc now raw p s) = todos s \<and> selectedIds (add lc now raw p s) = selectedIds s)
   \<and> ((\<exists>todo \<in> set (todos s). lc (todo_text todo) = lc (trim raw)) \<longrightarrow>
      todos (add lc now raw p s) = todos s \<and> selectedIds (add lc now raw p s) = selectedIds s)
   \<and> (trim raw \<noteq> [] \<and> \<not> (\<exists>todo \<in> set (todos s). lc (todo_text todo) = lc (trim raw)) \<longrightarrow>
      todos (add lc now raw p s) =
        todos s @ [\<lparr>todo_id = now, todo_text = trim raw, todo_completed = False,
                     todo_priority = p\<rparr>]
      \<and> selectedIds (add lc now raw p s) = selectedIds s)
   \<and> no_duplicate_text lc (run lc (add_calls calls) initial_state)
   \<and> (no_duplicate_text lc s \<longrightarrow> no_duplicate_text lc (run lc cs s))"
proof -
  have "no_duplicate_text lc initial_state"
    by (simp add: no_duplicate_text_def initial_state_def)
  then have "no_duplicate_text lc (run lc (add_calls calls) initial_state)"
    by (rule no_duplicate_text_run)
  then show ?thesis
    by (simp add: add_todos_cases list_ex_iff no_duplicate_text_run)
qed

lemma buy_milk_run:
  "todos (run toLowerCase_ascii (add_calls buy_milk_calls) initial_state) =
     [\<lparr>todo_id = 10, todo_text = ascii ''Buy milk'', todo_completed = False,
       todo_priority = High\<rparr>]"
  by (simp add: buy_milk_calls_def add_calls_def run_def add_def addTodo_def initial_state_def
      trim_def isWhiteSpace_def ascii_def toLowerCase_ascii_def Let_def)

lemma buy_milk_first:
  "todos (add toLowerCase_ascii 10 (ascii ''Buy milk'') High initial_state) =
     [\<lparr>todo_id = 10, todo_text = ascii ''Buy milk'', todo_completed = False,
       todo_priority = High\<rparr>]"
  by (simp add: add_def addTodo_def initial_state_def trim_def isWhiteSpace_def ascii_def
      toLowerCase_ascii_def Let_def)

theorem add_guards_and_appends_witness:
  "trim (ascii ''   '') = []
   \<and> todos (add toLowerCase_ascii 30 (ascii ''   '') Low
        (add toLowerCase_ascii 10 (ascii ''Buy milk'') High initial_state)) =
      todos (add toLowerCase_ascii 10 (ascii ''Buy milk'') High initial_state)
   \<and> (\<exists>todo \<in> set (todos (add toLowerCase_ascii 10 (ascii ''Buy milk'') High initial_state)).
         toLowerCase_ascii (todo_text todo) = toLowerCase_ascii (trim (ascii '' buy MILK '')))
   \<and> todos (add toLowerCase_ascii 20 (ascii '' buy MILK '') Low
        (add toLowerCase_ascii 10 (ascii ''Buy milk'') High initial_state)) =
      todos (add toLowerCase_ascii 10 (ascii ''Buy milk'') High initial_state)
   \<and> trim (ascii ''Buy milk'') \<noteq> []
   \<and> todos (add toLowerCase_ascii 10 (ascii ''Buy milk'') High initial_state) =
      todos initial_state @
        [\<lparr>todo_id = 10, todo_text = trim (ascii ''Buy milk''), todo_completed = False,
          todo_priority = High\<rparr>]
   \<and> no_duplicate_text toLowerCase_ascii
        (run toLowerCase_ascii (add_calls buy_milk_calls) initial_state)
   \<and> length (todos (run toLowerCase_ascii (add_calls buy_milk_calls) initial_state)) = 1"
proof -
  let ?s1 = "add toLowerCase_ascii 10 (ascii ''Buy milk'') High initial_state"
  have a: "trim (ascii ''   '') = []" by (simp add: trim_def isWhiteSpace_def ascii_def)
  have b: "\<exists>todo \<in> set (todos ?s1).
         toLowerCase_ascii (todo_text todo) = toLowerCase_ascii (trim (ascii '' buy MILK ''))"
    unfolding buy_milk_first
    by (simp add: trim_def isWhiteSpace_def ascii_def toLowerCase_ascii_def)
  have c: "trim (ascii ''Buy milk'') \<noteq> []" by (simp add: trim_def isWhiteSpace_def ascii_def)
  have d: "todos initial_state = []" by (simp add: initial_state_def)
  from add_guards_and_appends [where raw = "ascii ''   ''" and lc = toLowerCase_ascii and now = 30
      and p = Low and s = ?s1 and calls = buy_milk_calls and cs = "[]"]
    a
  have 1: "todos (add toLowerCase_ascii 30 (ascii ''   '') Low ?s1) = todos ?s1" by simp
  from add_guards_and_appends [where raw = "ascii '' buy MILK ''" and lc = toLowerCase_ascii
      and now = 20 and p = Low and s = ?s1 and calls = buy_milk_calls and cs = "[]"] b
  have 2: "todos (add toLowerCase_ascii 20 (ascii '' buy MILK '') Low ?s1) = todos ?s1"
    by blast
  from add_guards_and_appends [where raw = "ascii ''Buy milk''" and lc = toLowerCase_ascii
      and now = 10 and p = High and s = initial_state and calls = buy_milk_calls and cs = "[]"] c d
  have 3: "todos ?s1 = todos initial_state @
        [\<lparr>todo_id = 10, todo_text = trim (ascii ''Buy milk''), todo_completed = False,
          todo_priority = High\<rparr>]
      \<and> no_duplicate_text toLowerCase_ascii
        (run toLowerCase_ascii (add_calls buy_milk_calls) initial_state)"
    by simp
  show ?thesis using a b c 1 2 3 by (simp add: buy_milk_run)
qed

section \<open>Evaluating the JSON functions\<close>

lemmas json_eval = JSON_parse_def skip_ws_def isJSONWhiteSpace_def parse_literal_def ascii_def
  parse_number_def isDigit_def digits_value_def build_object_def comes_before_def array_index_def
  hex4_def hexValue_def unescape_def Let_def quoted_def

lemmas stringify_eval = JSON_stringify_def wrap_def QuoteJSONString_def quoteUnit_def
  numberToString_def showNat.simps booleanToString_def ascii_def isLeadingSurrogate_def
  isTrailingSurrogate_def unicodeEscape_def hexDigit_def quoted_def

section \<open>Properties of the json export\<close>

lemma quote_ascii_keys:
  "QuoteJSONString (ascii ''exportTime'') = quoted ''exportTime''"
  "QuoteJSONString (ascii ''total'') = quoted ''total''"
  "QuoteJSONString (ascii ''completed'') = quoted ''completed''"
  "QuoteJSONString (ascii ''todos'') = quoted ''todos''"
  "QuoteJSONString (ascii ''id'') = quoted ''id''"
  "QuoteJSONString (ascii ''text'') = quoted ''text''"
  "QuoteJSONString (ascii ''priority'') = quoted ''priority''"
  by (simp_all add: QuoteJSONString_def quoted_def ascii_def quoteUnit_def isLeadingSurrogate_def
      isTrailingSurrogate_def)

lemma serialize_todo_indented:
  "SerializeJSONProperty (ascii ''  '') (ascii ''    '') (todo_to_js t) =
     ascii ''{'' @ [0x0A] @
     ascii ''      '' @ quoted ''id'' @ ascii '': '' @ numberToString (todo_id t) @
       ascii '','' @ [0x0A] @
     ascii ''      '' @ quoted ''text'' @ ascii '': '' @ QuoteJSONString (todo_text t) @
       ascii '','' @ [0x0A] @
     ascii ''      '' @ quoted ''completed'' @ ascii '': '' @ booleanToString (todo_completed t) @
       ascii '','' @ [0x0A] @
     ascii ''      '' @ quoted ''priority'' @ ascii '': '' @
       QuoteJSONString (priorityName (todo_priority t)) @ [0x0A] @
     ascii ''    }''"
  by (simp add: todo_to_js_def wrap_def quote_ascii_keys) (simp add: ascii_def)

text \<open>
  Claim C9. The json export is an object, printed with an indentation of two spaces
  per level, with the properties \<^verbatim>\<open>exportTime\<close> (the ISO string of the export date),
  \<^verbatim>\<open>total\<close> (the number of items), \<^verbatim>\<open>completed\<close> (the number of completed items)
  and \<^verbatim>\<open>todos\<close> (the array of all the items, in order, each with its four
  properties). For the single item with id 1, text \<^verbatim>\<open>Buy milk\<close>, not completed, of high
  priority, the export parses as the object with \<^verbatim>\<open>total\<close> 1, \<^verbatim>\<open>completed\<close> 0 and a
  \<^verbatim>\<open>todos\<close> array holding exactly that record.
\<close>

theorem json_export_layout:
  "jsonContent now items =
     ascii ''{'' @ [0x0A] @
     ascii ''  '' @ quoted ''exportTime'' @ ascii '': '' @ QuoteJSONString (toISOString now) @
       ascii '','' @ [0x0A] @
     ascii ''  '' @ quoted ''total'' @ ascii '': '' @ numberToString (int (length items)) @
       ascii '','' @ [0x0A] @
     ascii ''  '' @ quoted ''completed'' @ ascii '': '' @
       numberToString (int (length (filter todo_completed items))) @ ascii '','' @ [0x0A] @
     ascii ''  '' @ quoted ''todos'' @ ascii '': '' @
       (if items = [] then ascii ''[]''
        else ascii ''['' @ [0x0A] @ ascii ''    '' @
             join (ascii '','' @ [0x0A] @ ascii ''    '')
               (map (\<lambda>t.
                  ascii ''{'' @ [0x0A] @
                  ascii ''      '' @ quoted ''id'' @ ascii '': '' @ numberToString (todo_id t) @
                    ascii '','' @ [0x0A] @
                  ascii ''      '' @ quoted ''text'' @ ascii '': '' @
                    QuoteJSONString (todo_text t) @ ascii '','' @ [0x0A] @
                  ascii ''      '' @ quoted ''completed'' @ ascii '': '' @
                    booleanToString (todo_completed t) @ ascii '','' @ [0x0A] @
                  ascii ''      '' @ quoted ''priority'' @ ascii '': '' @
                    QuoteJSONString (priorityName (todo_priority t)) @ [0x0A] @
                  ascii ''    }'') items) @
             [0x0A] @ ascii ''  ]'') @
       [0x0A] @
     ascii ''}''
   \<and> generateExportContent now Json items = jsonContent now items
   \<and> JSON_parse (generateExportContent new_year Json [buy_milk]) =
       Parsed (JObj [(ascii ''exportTime'', JStr (ascii ''2024-01-01T00:00:00.000Z'')),
                     (ascii ''total'', JNum 1),
                     (ascii ''completed'', JNum 0),
                     (ascii ''todos'',
                      JArr [JObj [(ascii ''id'', JNum 1),
                                  (ascii ''text'', JStr (ascii ''Buy milk'')),
                                  (ascii ''completed'', JBool False),
                                  (ascii ''priority'', JStr (ascii ''high''))]])])"
proof -
  have arr: "map (SerializeJSONProperty (ascii ''  '') (ascii ''    '')) (map todo_to_js items) =
        map (\<lambda>t.
                  ascii ''{'' @ [0x0A] @
                  ascii ''      '' @ quoted ''id'' @ ascii '': '' @ numberToString (todo_id t) @
                    ascii '','' @ [0x0A] @
                  ascii ''      '' @ quoted ''text'' @ ascii '': '' @
                    QuoteJSONString (todo_text t) @ ascii '','' @ [0x0A] @
                  ascii ''      '' @ quoted ''completed'' @ ascii '': '' @
                    booleanToString (todo_completed t) @ ascii '','' @ [0x0A] @
                  ascii ''      '' @ quoted ''priority'' @ ascii '': '' @
                    QuoteJSONString (priorityName (todo_priority t)) @ [0x0A] @
                  ascii ''    }'') items"
    by (simp add: serialize_todo_indented)
  have sp: "ascii ''  '' @ ascii ''  '' = ascii ''    ''" by (simp add: ascii_def)
  have 1: "SerializeJSONProperty (ascii ''  '') (ascii ''  '') (JArr (map todo_to_js items)) =
       (if items = [] then ascii ''[]''
        else ascii ''['' @ [0x0A] @ ascii ''    '' @
             join (ascii '','' @ [0x0A] @ ascii ''    '')
               (map (SerializeJSONProperty (ascii ''  '') (ascii ''    '')) (map todo_to_js items)) @
             [0x0A] @ ascii ''  ]'')"
    by (simp add: wrap_def sp) (simp add: ascii_def)
  have 2: "jsonContent now items =
     ascii ''{'' @ [0x0A] @
     ascii ''  '' @ quoted ''exportTime'' @ ascii '': '' @ QuoteJSONString (toISOString now) @
       ascii '','' @ [0x0A] @
     ascii ''  '' @ quoted ''total'' @ ascii '': '' @ numberToString (int (length items)) @
       ascii '','' @ [0x0A] @
     ascii ''  '' @ quoted ''completed'' @ ascii '': '' @
       numberToString (int (length (filter todo_completed items))) @ ascii '','' @ [0x0A] @
     ascii ''  '' @ quoted ''todos'' @ ascii '': '' @
       SerializeJSONProperty (ascii ''  '') (ascii ''  '') (JArr (map todo_to_js items)) @
       [0x0A] @
     ascii ''}''"
    unfolding jsonContent_def JSON_stringify_indent2_def
    by (simp add: wrap_def quote_ascii_keys del: SerializeJSONProperty.simps(5))
       (simp add: ascii_def)
  have 3: "generateExportContent now Json items = jsonContent now items"
    by (simp add: generateExportContent_def)
  have 4: "JSON_parse (generateExportContent new_year Json [buy_milk]) =
       Parsed (JObj [(ascii ''exportTime'', JStr (ascii ''2024-01-01T00:00:00.000Z'')),
                     (ascii ''total'', JNum 1),
                     (ascii ''completed'', JNum 0),
                     (ascii ''todos'',
                      JArr [JObj [(ascii ''id'', JNum 1),
                                  (ascii ''text'', JStr (ascii ''Buy milk'')),
                                  (ascii ''completed'', JBool False),
                                  (ascii ''priority'', JStr (ascii ''high''))]])])"
    by (simp add: generateExportContent_def jsonContent_def JSON_stringify_indent2_def
        new_year_def buy_milk_def todo_to_js_def stringify_eval json_eval)
  show ?thesis
    by (intro conjI, subst 2, subst 1, subst arr, rule refl, rule 3, rule 4)
qed

section \<open>Parsing back what the serialiser writes\<close>

lemma below_16: "k < 16 \<Longrightarrow> k \<in> {0, 1, 2, 3, 4, 5, 6, 7, 8, 9, 10, 11, 12, 13, 14, 15::nat}"
  by (simp add: numeral_eq_Suc less_Suc_eq)

lemma hexValue_hexDigit: "k < 16 \<Longrightarrow> hexValue (hexDigit k) = Some k"
proof -
  assume "k < 16"
  then have "k \<in> {0, 1, 2, 3, 4, 5, 6, 7, 8, 9, 10, 11, 12, 13, 14, 15}" by (rule below_16)
  then show ?thesis
    by (elim insertE emptyE) (simp_all add: hexValue_def hexDigit_def)
qed

lemma hex_digits_sum:
  "4096 * (n div 4096) + 256 * (n div 256 mod 16) + 16 * (n div 16 mod 16) + n mod 16 = (n::nat)"
proof -
  have a: "n div 256 = n div 16 div 16" and b: "n div 4096 = n div 16 div 16 div 16"
    by (simp_all add: div_mult2_eq [symmetric])
  have "n = 16 * (n div 16) + n mod 16" by simp
  moreover have "n div 16 = 16 * (n div 16 div 16) + n div 16 mod 16" by simp
  moreover have "n div 16 div 16 = 16 * (n div 16 div 16 div 16) + n div 16 div 16 mod 16" by simp
  ultimately show ?thesis unfolding a b by linarith
qed

lemma unat_code_unit: "unat (c :: 16 word) < 65536"
  using unsigned_less [of c] by simp

lemma hex4_unicodeEscape:
  "hex4 (hexDigit (unat c div 4096)) (hexDigit (unat c div 256 mod 16))
        (hexDigit (unat c div 16 mod 16)) (hexDigit (unat c mod 16)) = Some c"
proof -
  have 1: "unat c div 4096 < 16" using unat_code_unit [of c] by simp
  have "hex4 (hexDigit (unat c div 4096)) (hexDigit (unat c div 256 mod 16))
        (hexDigit (unat c div 16 mod 16)) (hexDigit (unat c mod 16)) =
        Some (of_nat (4096 * (unat c div 4096) + 256 * (unat c div 256 mod 16) +
                      16 * (unat c div 16 mod 16) + unat c mod 16))"
    using 1 by (simp add: hex4_def hexValue_hexDigit)
  also have "\<dots> = Some (of_nat (unat c))" by (simp only: hex_digits_sum)
  finally show ?thesis by simp
qed

lemma parse_chars_unicodeEscape:
  "parse_chars (unicodeEscape c @ k) = map_partial ((#) c) (parse_chars k)"
  by (simp add: unicodeEscape_def hex4_unicodeEscape)


lemma parse_chars_plain:
  "c \<noteq> 0x22 \<Longrightarrow> \<not> c < 0x20 \<Longrightarrow> c \<noteq> 0x5C \<Longrightarrow>
   parse_chars (c # k) = map_partial ((#) c) (parse_chars k)"
  by simp

lemma parse_chars_quoteUnit:
  "parse_chars (quoteUnit c @ k) = map_partial ((#) c) (parse_chars k)"
proof -
  consider "c = 0x08" | "c = 0x09" | "c = 0x0A" | "c = 0x0C" | "c = 0x0D" | "c = 0x22"
    | "c = 0x5C"
    | "c \<notin> {0x08, 0x09, 0x0A, 0x0C, 0x0D, 0x22, 0x5C}"
      "c < 0x20 \<or> isLeadingSurrogate c \<or> isTrailingSurrogate c"
    | "c \<notin> {0x08, 0x09, 0x0A, 0x0C, 0x0D, 0x22, 0x5C}"
      "\<not> (c < 0x20 \<or> isLeadingSurrogate c \<or> isTrailingSurrogate c)"
    by blast
  then show ?thesis
  proof cases
    case 8
    then have "quoteUnit c = unicodeEscape c" by (simp add: quoteUnit_def)
    then show ?thesis by (simp only: parse_chars_unicodeEscape)
  next
    case 9
    then have "quoteUnit c = [c]" by (simp add: quoteUnit_def)
    with 9 show ?thesis by (simp add: parse_chars_plain)
  qed (simp_all add: quoteUnit_def unescape_def)
qed

lemma surrogate_is_plain:
  assumes "0xD800 \<le> (c :: 16 word)"
  shows "c \<noteq> 0x22" and "\<not> c < 0x20" and "c \<noteq> 0x5C"
  using assms by (auto simp add: word_le_nat_alt word_less_nat_alt)

lemma parse_chars_quoteChars:
  "parse_chars (quoteChars s @ 0x22 # rest) = Ok s rest"
proof (induction s rule: quoteChars.induct)
  case 1
  then show ?case by simp
next
  case (2 c)
  have "parse_chars (quoteUnit c @ 0x22 # rest) = map_partial ((#) c) (parse_chars (0x22 # rest))"
    by (rule parse_chars_quoteUnit)
  then show ?case by simp
next
  case (3 c d cs)
  show ?case
  proof (cases "isLeadingSurrogate c \<and> isTrailingSurrogate d")
    case True
    then have c: "0xD800 \<le> c" and d: "0xD800 \<le> d"
      by (auto simp add: isLeadingSurrogate_def isTrailingSurrogate_def word_le_nat_alt)
    from True 3 have ih: "parse_chars (quoteChars cs @ 0x22 # rest) = Ok cs rest" by simp
    have e: "quoteChars (c # d # cs) @ 0x22 # rest = c # d # quoteChars cs @ 0x22 # rest"
      using True by simp
    have "parse_chars (c # d # quoteChars cs @ 0x22 # rest) =
          map_partial ((#) c) (map_partial ((#) d) (parse_chars (quoteChars cs @ 0x22 # rest)))"
      by (simp only: parse_chars_plain [OF surrogate_is_plain [OF c]]
          parse_chars_plain [OF surrogate_is_plain [OF d]])
    then show ?thesis unfolding e ih by simp
  next
    case False
    with 3 have ih: "parse_chars (quoteChars (d # cs) @ 0x22 # rest) = Ok (d # cs) rest" by simp
    have e: "quoteChars (c # d # cs) @ 0x22 # rest =
             quoteUnit c @ quoteChars (d # cs) @ 0x22 # rest"
      using False by auto
    show ?thesis unfolding e parse_chars_quoteUnit ih by simp
  qed
qed

lemma parse_QuoteJSONString:
  "parse_chars (tl (QuoteJSONString s) @ rest) = Ok s rest"
  by (simp add: QuoteJSONString_def parse_chars_quoteChars)

lemma below_10: "k < 10 \<Longrightarrow> k \<in> {0, 1, 2, 3, 4, 5, 6, 7, 8, 9::nat}"
  by (simp add: numeral_eq_Suc less_Suc_eq)

lemma digit_unit:
  assumes "k < 10"
  shows "isDigit (of_nat (48 + k))" and "unat ((of_nat (48 + k) :: 16 word) - 0x30) = k"
    and "(k = 0) = ((of_nat (48 + k) :: 16 word) = 0x30)"
proof -
  from assms have k: "k \<in> {0, 1, 2, 3, 4, 5, 6, 7, 8, 9}" by (rule below_10)
  from k show "isDigit (of_nat (48 + k))"
    by (elim insertE emptyE) (simp_all add: isDigit_def)
  from k show "unat ((of_nat (48 + k) :: 16 word) - 0x30) = k"
    by (elim insertE emptyE) simp_all
  from k show "(k = 0) = ((of_nat (48 + k) :: 16 word) = 0x30)"
    by (elim insertE emptyE) simp_all
qed

lemma showNat_small: "n < 10 \<Longrightarrow> showNat n = [of_nat (48 + n)]"
  by (simp add: showNat.simps)

lemma showNat_large:
  "\<not> n < 10 \<Longrightarrow> showNat n = showNat (n div 10) @ [of_nat (48 + n mod 10)]"
  by (subst showNat.simps) simp

lemma showNat_nonempty: "showNat n \<noteq> []"
  by (cases "n < 10") (simp_all add: showNat_small showNat_large del: of_nat_add)

lemma showNat_digits: "list_all isDigit (showNat n)"
proof (induction n rule: showNat.induct)
  case (1 n)
  show ?case
  proof (cases "n < 10")
    case True
    then show ?thesis using digit_unit(1) [of n] by (simp add: showNat_small del: of_nat_add)
  next
    case False
    with 1 show ?thesis
      using digit_unit(1) [of "n mod 10"] by (simp add: showNat_large del: of_nat_add)
  qed
qed

lemma digits_value_snoc:
  "digits_value (ds @ [d]) = 10 * digits_value ds + unat (d - 0x30)"
  by (simp add: digits_value_def)

lemma digits_value_showNat: "digits_value (showNat n) = n"
proof (induction n rule: showNat.induct)
  case (1 n)
  show ?case
  proof (cases "n < 10")
    case True
    then show ?thesis
      using digit_unit(2) [of n] by (simp add: showNat_small digits_value_def del: of_nat_add)
  next
    case False
    with 1 show ?thesis
      using digit_unit(2) [of "n mod 10"]
      by (simp add: showNat_large digits_value_snoc del: of_nat_add)
  qed
qed

lemma showNat_no_leading_zero: "0 < n \<Longrightarrow> hd (showNat n) \<noteq> 0x30"
proof (induction n rule: showNat.induct)
  case (1 n)
  show ?case
  proof (cases "n < 10")
    case True
    with 1 show ?thesis using digit_unit(3) [of n] by (simp add: showNat_small del: of_nat_add)
  next
    case False
    then have "0 < n div 10" by simp
    with 1 False have "hd (showNat (n div 10)) \<noteq> 0x30" by simp
    with False show ?thesis by (simp add: showNat_large showNat_nonempty del: of_nat_add)
  qed
qed

lemma showNat_length: "1 < length (showNat n) \<Longrightarrow> 0 < n"
  by (cases "n < 10") (simp_all add: showNat_small del: of_nat_add)

lemma comma_not_digit: "\<not> isDigit 0x2C"
  by (simp add: isDigit_def)

lemma takeWhile_digits:
  "takeWhile isDigit (showNat n @ 0x2C # rest) = showNat n"
  "dropWhile isDigit (showNat n @ 0x2C # rest) = 0x2C # rest"
  using showNat_digits [of n] comma_not_digit
  by (simp_all add: takeWhile_append2 dropWhile_append2 list_all_iff)

lemma minus_not_digit: "\<not> isDigit 0x2D"
  by (simp add: isDigit_def)

lemma hd_showNat_not_minus: "hd (showNat n) \<noteq> 0x2D"
proof -
  have "isDigit (hd (showNat n))"
    using showNat_digits [of n] showNat_nonempty [of n] by (cases "showNat n") simp_all
  then show ?thesis using minus_not_digit by auto
qed

lemma parse_number_numberToString:
  assumes "\<bar>i\<bar> \<le> 9007199254740992"
  shows "parse_number (numberToString i @ 0x2C # rest) = Ok (JNum i) (0x2C # rest)"
proof (cases "i < 0")
  case True
  let ?n = "nat (- i)"
  have n: "\<not> ?n > 9007199254740992" using assms True by simp
  have z: "\<not> (1 < length (showNat ?n) \<and> hd (showNat ?n) = 0x30)"
    using showNat_no_leading_zero [of ?n] showNat_length [of ?n] by auto
  have "numberToString i @ 0x2C # rest = 0x2D # showNat ?n @ 0x2C # rest"
    using True by (simp add: numberToString_def)
  then show ?thesis
    using True n z
    by (simp add: parse_number_def Let_def takeWhile_digits showNat_nonempty digits_value_showNat)
next
  case False
  let ?n = "nat i"
  have n: "\<not> ?n > 9007199254740992" using assms False by simp
  have z: "\<not> (1 < length (showNat ?n) \<and> hd (showNat ?n) = 0x30)"
    using showNat_no_leading_zero [of ?n] showNat_length [of ?n] by auto
  have e: "numberToString i @ 0x2C # rest = showNat ?n @ 0x2C # rest"
    using False by (simp add: numberToString_def)
  have h: "hd (showNat ?n @ 0x2C # rest) \<noteq> 0x2D"
    using hd_showNat_not_minus [of ?n] showNat_nonempty [of ?n] by simp
  show ?thesis
    unfolding e using False n z h
    by (simp add: parse_number_def Let_def takeWhile_digits showNat_nonempty digits_value_showNat)
qed

lemma serialize_todo_compact:
  "SerializeJSONProperty [] [] (todo_to_js t) =
     0x7B # quoted ''id'' @ 0x3A # numberToString (todo_id t) @
     0x2C # quoted ''text'' @ 0x3A # QuoteJSONString (todo_text t) @
     0x2C # quoted ''completed'' @ 0x3A # booleanToString (todo_completed t) @
     0x2C # quoted ''priority'' @ 0x3A # QuoteJSONString (priorityName (todo_priority t)) @
     [0x7D]"
  by (simp add: todo_to_js_def wrap_def quote_ascii_keys)

lemma numberToString_first:
  "\<exists>c cs. numberToString i = c # cs \<and> (c = 0x2D \<or> isDigit c)"
proof (cases "i < 0")
  case True
  then show ?thesis by (simp add: numberToString_def)
next
  case False
  obtain c cs where e: "showNat (nat i) = c # cs"
    using showNat_nonempty [of "nat i"] by (cases "showNat (nat i)") auto
  with showNat_digits [of "nat i"] have "isDigit c" by simp
  with e False show ?thesis by (simp add: numberToString_def)
qed

lemma parse_value_number:
  "parse_value (Suc n) (numberToString i @ 0x2C # rest) =
   parse_number (numberToString i @ 0x2C # rest)"
proof -
  obtain c cs where e: "numberToString i = c # cs" and c: "c = 0x2D \<or> isDigit c"
    using numberToString_first by blast
  from c have "\<not> isJSONWhiteSpace c" "c \<noteq> 0x5B" "c \<noteq> 0x7B" "c \<noteq> 0x22"
    by (auto simp add: isJSONWhiteSpace_def isDigit_def)
  with c show ?thesis unfolding e by (simp add: skip_ws_def)
qed

lemma parse_value_string:
  "parse_value (Suc n) (QuoteJSONString s @ rest) = Ok (JStr s) rest"
  by (simp add: QuoteJSONString_def skip_ws_def isJSONWhiteSpace_def parse_chars_quoteChars)

lemma parse_value_boolean:
  "parse_value (Suc n) (booleanToString b @ 0x2C # rest) = Ok (JBool b) (0x2C # rest)"
  by (cases b)
     (simp_all add: booleanToString_def ascii_def skip_ws_def isJSONWhiteSpace_def isDigit_def
        parse_literal_def)

lemma parse_key:
  "parse_chars (ascii ''id'' @ 0x22 # rest) = Ok (ascii ''id'') rest"
  "parse_chars (ascii ''text'' @ 0x22 # rest) = Ok (ascii ''text'') rest"
  "parse_chars (ascii ''completed'' @ 0x22 # rest) = Ok (ascii ''completed'') rest"
  "parse_chars (ascii ''priority'' @ 0x22 # rest) = Ok (ascii ''priority'') rest"
  by (simp_all add: ascii_def)

lemma build_todo_object:
  "build_object [(ascii ''id'', a), (ascii ''text'', b), (ascii ''completed'', c),
                 (ascii ''priority'', d)] =
   JObj [(ascii ''id'', a), (ascii ''text'', b), (ascii ''completed'', c), (ascii ''priority'', d)]"
  by (simp add: build_object_def comes_before_def array_index_def ascii_def isDigit_def)

lemma skip_ws_punctuation:
  "skip_ws (0x22 # x) = 0x22 # x" "skip_ws (0x3A # x) = 0x3A # x"
  "skip_ws (0x2C # x) = 0x2C # x" "skip_ws (0x7D # x) = 0x7D # x"
  "skip_ws (0x5D # x) = 0x5D # x" "skip_ws (0x7B # x) = 0x7B # x"
  "skip_ws (0x5B # x) = 0x5B # x"
  by (simp_all add: skip_ws_def isJSONWhiteSpace_def)

lemma parse_members_step:
  assumes "parse_chars ks = Ok key (0x3A # vs)" and "parse_value n vs = Ok v (0x2C # others)"
  shows "parse_members (Suc n) (0x22 # ks) = map_partial ((#) (key, v)) (parse_members n others)"
  using assms by (simp add: skip_ws_punctuation)

lemma parse_members_last:
  assumes "parse_chars ks = Ok key (0x3A # vs)" and "parse_value n vs = Ok v (0x7D # rest)"
  shows "parse_members (Suc n) (0x22 # ks) = Ok [(key, v)] rest"
  using assms by (simp add: skip_ws_punctuation)

lemma parse_elements_step:
  assumes "parse_value n cs = Ok v (0x2C # others)"
  shows "parse_elements (Suc n) cs = map_partial ((#) v) (parse_elements n others)"
  using assms by (simp add: skip_ws_punctuation)

lemma parse_elements_last:
  assumes "parse_value n cs = Ok v (0x5D # rest)"
  shows "parse_elements (Suc n) cs = Ok [v] rest"
  using assms by (simp add: skip_ws_punctuation)

lemma parse_value_object:
  assumes "parse_members n (0x22 # ks) = Ok ms rest"
  shows "parse_value (Suc n) (0x7B # 0x22 # ks) = Ok (build_object ms) rest"
  using assms by (simp add: skip_ws_punctuation)

lemma parse_value_array:
  assumes "parse_elements n (0x7B # cs) = Ok vs rest"
  shows "parse_value (Suc n) (0x5B # 0x7B # cs) = Ok (JArr vs) rest"
  using assms by (simp add: skip_ws_punctuation)

lemma quoted_key: "quoted key @ 0x3A # x = 0x22 # ascii key @ 0x22 # 0x3A # x"
  by (simp add: quoted_def)

lemma parse_value_todo:
  assumes "\<bar>todo_id t\<bar> \<le> 9007199254740992"
  shows "parse_value (Suc (Suc (Suc (Suc (Suc (Suc k))))))
           (SerializeJSONProperty [] [] (todo_to_js t) @ rest) = Ok (todo_to_js t) rest"
proof -
  let ?p = "QuoteJSONString (priorityName (todo_priority t)) @ 0x7D # rest"
  let ?c = "booleanToString (todo_completed t) @ 0x2C # quoted ''priority'' @ 0x3A # ?p"
  let ?t = "QuoteJSONString (todo_text t) @ 0x2C # quoted ''completed'' @ 0x3A # ?c"
  let ?i = "numberToString (todo_id t) @ 0x2C # quoted ''text'' @ 0x3A # ?t"
  have 4: "parse_members (Suc (Suc k)) (quoted ''priority'' @ 0x3A # ?p) =
           Ok [(ascii ''priority'', JStr (priorityName (todo_priority t)))] rest"
    unfolding quoted_key by (rule parse_members_last [OF parse_key(4) parse_value_string])
  have 3: "parse_members (Suc (Suc (Suc k))) (quoted ''completed'' @ 0x3A # ?c) =
           Ok [(ascii ''completed'', JBool (todo_completed t)),
               (ascii ''priority'', JStr (priorityName (todo_priority t)))] rest"
    unfolding quoted_key [of "''completed''"]
    by (simp only: parse_members_step [OF parse_key(3) parse_value_boolean] 4 map_partial.simps)
  have 2: "parse_members (Suc (Suc (Suc (Suc k)))) (quoted ''text'' @ 0x3A # ?t) =
           Ok [(ascii ''text'', JStr (todo_text t)),
               (ascii ''completed'', JBool (todo_completed t)),
               (ascii ''priority'', JStr (priorityName (todo_priority t)))] rest"
    unfolding quoted_key [of "''text''"]
    by (simp only: parse_members_step [OF parse_key(2) parse_value_string] 3 map_partial.simps)
  have n: "parse_value (Suc (Suc (Suc (Suc k)))) ?i =
           Ok (JNum (todo_id t)) (0x2C # quoted ''text'' @ 0x3A # ?t)"
    by (simp only: parse_value_number parse_number_numberToString [OF assms])
  have 1: "parse_members (Suc (Suc (Suc (Suc (Suc k))))) (0x22 # ascii ''id'' @ 0x22 # 0x3A # ?i) =
           Ok [(ascii ''id'', JNum (todo_id t)),
               (ascii ''text'', JStr (todo_text t)),
               (ascii ''completed'', JBool (todo_completed t)),
               (ascii ''priority'', JStr (priorityName (todo_priority t)))] rest"
    by (simp only: parse_members_step [OF parse_key(1) n] 2 map_partial.simps)
  have e: "SerializeJSONProperty [] [] (todo_to_js t) @ rest =
           0x7B # 0x22 # ascii ''id'' @ 0x22 # 0x3A # ?i"
    by (simp add: serialize_todo_compact quoted_def)
  have b: "build_object [(ascii ''id'', JNum (todo_id t)),
               (ascii ''text'', JStr (todo_text t)),
               (ascii ''completed'', JBool (todo_completed t)),
               (ascii ''priority'', JStr (priorityName (todo_priority t)))] = todo_to_js t"
    by (simp add: build_todo_object todo_to_js_def)
  show ?thesis
    unfolding e by (simp only: parse_value_object [OF 1] b)
qed

lemma parse_value_todo_fuel:
  assumes "\<bar>todo_id t\<bar> \<le> 9007199254740992" and "6 \<le> n"
  shows "parse_value n (SerializeJSONProperty [] [] (todo_to_js t) @ rest) = Ok (todo_to_js t) rest"
proof -
  from assms(2) obtain k where "n = 6 + k" using le_Suc_ex by blast
  then have "n = Suc (Suc (Suc (Suc (Suc (Suc k)))))" by simp
  with parse_value_todo [OF assms(1)] show ?thesis by simp
qed

lemma parse_elements_todos:
  "\<forall>u \<in> set (t # ts). \<bar>todo_id u\<bar> \<le> 9007199254740992 \<Longrightarrow> length ts + 7 \<le> fuel \<Longrightarrow>
   parse_elements fuel
     (join [0x2C] (map (SerializeJSONProperty [] []) (map todo_to_js (t # ts))) @ 0x5D # rest) =
   Ok (map todo_to_js (t # ts)) rest"
proof (induction ts arbitrary: t fuel)
  case Nil
  then obtain m where f: "fuel = Suc m" and m: "6 \<le> m" by (cases fuel) auto
  have "parse_value m (SerializeJSONProperty [] [] (todo_to_js t) @ 0x5D # rest) =
        Ok (todo_to_js t) (0x5D # rest)"
    using Nil.prems(1) m by (intro parse_value_todo_fuel) auto
  then have "parse_elements (Suc m) (SerializeJSONProperty [] [] (todo_to_js t) @ 0x5D # rest) =
        Ok [todo_to_js t] rest"
    by (rule parse_elements_last)
  with f show ?case by simp
next
  case (Cons u us)
  then obtain m where f: "fuel = Suc m" and m: "length us + 7 \<le> m" by (cases fuel) auto
  let ?tail = "join [0x2C] (map (SerializeJSONProperty [] []) (map todo_to_js (u # us))) @ 0x5D # rest"
  have "parse_value m (SerializeJSONProperty [] [] (todo_to_js t) @ 0x2C # ?tail) =
        Ok (todo_to_js t) (0x2C # ?tail)"
    using Cons.prems(1) m by (intro parse_value_todo_fuel) auto
  then have "parse_elements (Suc m) (SerializeJSONProperty [] [] (todo_to_js t) @ 0x2C # ?tail) =
        map_partial ((#) (todo_to_js t)) (parse_elements m ?tail)"
    by (rule parse_elements_step)
  moreover have "parse_elements m ?tail = Ok (map todo_to_js (u # us)) rest"
    using Cons.prems(1) m by (intro Cons.IH) auto
  ultimately show ?case using f by simp
qed

lemma serialize_todo_length: "5 \<le> length (SerializeJSONProperty [] [] (todo_to_js t))"
  by (simp add: serialize_todo_compact quoted_def)

lemma join_length:
  "\<forall>x \<in> set xs. 5 \<le> length x \<Longrightarrow> 5 * length xs \<le> length (join sep xs)"
  by (induction sep xs rule: join.induct) auto

lemma serialize_todo_first:
  "\<exists>cs. SerializeJSONProperty [] [] (todo_to_js t) = 0x7B # cs"
  by (simp add: serialize_todo_compact)

lemma parse_save:
  assumes "\<forall>t \<in> set items. \<bar>todo_id t\<bar> \<le> 9007199254740992"
  shows "JSON_parse (save items) = Parsed (JArr (map todo_to_js items))"
proof (cases items)
  case Nil
  then show ?thesis
    by (simp add: save_def JSON_stringify_def wrap_def JSON_parse_def skip_ws_def
        isJSONWhiteSpace_def)
next
  case (Cons t ts)
  let ?body = "join [0x2C] (map (SerializeJSONProperty [] []) (map todo_to_js (t # ts)))"
  have s: "save items = 0x5B # ?body @ [0x5D]"
    using Cons by (simp add: save_def JSON_stringify_def wrap_def)
  have "5 * length (map (SerializeJSONProperty [] []) (map todo_to_js (t # ts))) \<le> length ?body"
    by (rule join_length) (auto simp add: serialize_todo_length)
  then have len: "length ts + 7 \<le> length (save items)" unfolding s by simp
  obtain cs where c: "?body = 0x7B # cs"
    using serialize_todo_first [of t] by (cases ts) auto
  have "parse_elements (length (save items)) (?body @ 0x5D # []) = Ok (map todo_to_js (t # ts)) []"
    using assms Cons len by (intro parse_elements_todos) auto
  then have "parse_elements (length (save items)) (0x7B # cs @ [0x5D]) =
             Ok (map todo_to_js (t # ts)) []"
    unfolding c by simp
  then have "parse_value (Suc (length (save items))) (0x5B # 0x7B # cs @ [0x5D]) =
             Ok (JArr (map todo_to_js (t # ts))) []"
    by (rule parse_value_array)
  moreover have "save items = 0x5B # 0x7B # cs @ [0x5D]" unfolding s c by simp
  ultimately show ?thesis
    using Cons by (simp add: JSON_parse_def skip_ws_def del: parse_value.simps)
qed

section \<open>Properties of loading and saving\<close>

lemma JSON_parse_empty: "JSON_parse [] = SyntaxError"
  by (simp add: json_eval)

lemma priority_not_index: "comes_before (ascii ''priority'') k = False"
  by (simp add: comes_before_def array_index_def ascii_def isDigit_def)

lemma define_priority_present:
  "map_of ps (ascii ''priority'') = Some v \<Longrightarrow> define_property (ascii ''priority'') v ps = ps"
  by (induction ps) (auto simp add: priority_not_index)

lemma define_priority_absent:
  "map_of ps (ascii ''priority'') = None \<Longrightarrow>
   define_property (ascii ''priority'') v ps = ps @ [(ascii ''priority'', v)]"
  by (induction ps) (auto simp add: priority_not_index)

lemma truthy_priority_names:
  "truthy (JStr (ascii ''high''))" "truthy (JStr (ascii ''medium''))" "truthy (JStr (ascii ''low''))"
  by (simp_all add: ascii_def)

lemma withPriority_item_like:
  assumes "item_like x"
  shows "withPriority x = Some (upgraded x)"
proof -
  from assms obtain ps where x: "x = JObj ps" by (cases x) (simp_all add: item_like_def)
  show ?thesis
  proof (cases "map_of ps (ascii ''priority'')")
    case None
    then show ?thesis
      by (simp add: x withPriority_def spread_with_priority_def upgraded_def has_priority_def
          define_priority_absent)
  next
    case (Some v)
    with assms x have "truthy v"
      using truthy_priority_names by (auto simp add: item_like_def)
    with Some show ?thesis
      by (simp add: x withPriority_def spread_with_priority_def upgraded_def has_priority_def
          define_priority_present)
  qed
qed

lemma those_map_Some:
  "(\<forall>x \<in> set xs. f x = Some (g x)) \<Longrightarrow> those (map f xs) = Some (map g xs)"
  by (induction xs) simp_all

lemma upgraded_has_priority: "has_priority x \<Longrightarrow> upgraded x = x"
  by (cases x) (simp_all add: upgraded_def)

lemma load_then_save_item_like:
  assumes p: "JSON_parse store_value = Parsed (JArr xs)" and il: "\<forall>x \<in> set xs. item_like x"
  shows "load_then_save store_value = Some (JSON_stringify (JArr (map upgraded xs)))"
proof -
  from p have ne: "store_value \<noteq> []" using JSON_parse_empty by auto
  have "those (map withPriority xs) = Some (map upgraded xs)"
    using il by (intro those_map_Some) (simp add: withPriority_item_like)
  with p ne show ?thesis by (simp add: load_then_save_def load_def)
qed

lemma item_like_todo_to_js: "item_like (todo_to_js t)"
  by (cases "todo_priority t")
     (simp_all add: item_like_def todo_to_js_def ascii_def is_number_def is_string_def
        is_boolean_def)

lemma has_priority_todo_to_js: "has_priority (todo_to_js t)"
  by (simp add: has_priority_def todo_to_js_def ascii_def)

lemma load_then_save_saved:
  assumes "\<forall>t \<in> set items. \<bar>todo_id t\<bar> \<le> 9007199254740992"
  shows "load_then_save (save items) = Some (save items)"
proof -
  have "JSON_parse (save items) = Parsed (JArr (map todo_to_js items))"
    using assms by (rule parse_save)
  then have "load_then_save (save items) =
             Some (JSON_stringify (JArr (map upgraded (map todo_to_js items))))"
    by (rule load_then_save_item_like) (simp add: item_like_todo_to_js)
  moreover have "map upgraded (map todo_to_js items) = map todo_to_js items"
    by (simp add: upgraded_has_priority has_priority_todo_to_js)
  ultimately show ?thesis by (simp only: save_def)
qed

text \<open>
  Claim C5, as the code has it. For a stored string that parses as a sequence of
  item-like records, loading and then saving writes the compact serialisation
  (\<^verbatim>\<open>JSON.stringify\<close> without indentation) of the parsed records, a record without
  \<^verbatim>\<open>priority\<close> getting \<^verbatim>\<open>priority: "medium"\<close> as its last property. When every record
  has its priority and the stored string is that compact serialisation, the value
  written back is the stored string itself. That is so for every string the save effect
  writes: what it writes for a list of items (with identifiers that a double holds
  exactly) is read and written back byte for byte.
\<close>

theorem load_save_roundtrip:
  "(JSON_parse store_value = Parsed (JArr xs) \<and> (\<forall>x \<in> set xs. item_like x) \<longrightarrow>
     load_then_save store_value = Some (JSON_stringify (JArr (map upgraded xs)))
     \<and> ((\<forall>x \<in> set xs. has_priority x) \<and> JSON_stringify (JArr xs) = store_value \<longrightarrow>
          load_then_save store_value = Some store_value))
   \<and> ((\<forall>t \<in> set items. \<bar>todo_id t\<bar> \<le> 9007199254740992) \<longrightarrow>
        JSON_parse (save items) = Parsed (JArr (map todo_to_js items))
        \<and> load_then_save (save items) = Some (save items))"
proof (intro conjI impI)
  assume a: "JSON_parse store_value = Parsed (JArr xs) \<and> (\<forall>x \<in> set xs. item_like x)"
  then show "load_then_save store_value = Some (JSON_stringify (JArr (map upgraded xs)))"
    by (intro load_then_save_item_like) simp_all
  assume b: "(\<forall>x \<in> set xs. has_priority x) \<and> JSON_stringify (JArr xs) = store_value"
  then have "map upgraded xs = xs" by (simp add: upgraded_has_priority map_idI)
  moreover have "load_then_save store_value = Some (JSON_stringify (JArr (map upgraded xs)))"
    using a by (intro load_then_save_item_like) simp_all
  ultimately show "load_then_save store_value = Some store_value" using b by simp
next
  assume "\<forall>t \<in> set items. \<bar>todo_id t\<bar> \<le> 9007199254740992"
  then show "JSON_parse (save items) = Parsed (JArr (map todo_to_js items))"
    by (rule parse_save)
next
  assume "\<forall>t \<in> set items. \<bar>todo_id t\<bar> \<le> 9007199254740992"
  then show "load_then_save (save items) = Some (save items)"
    by (rule load_then_save_saved)
qed

lemma parse_spaced: "JSON_parse spaced_store_value = Parsed (JArr [todo_to_js (item_a High)])"
  by (simp add: spaced_store_value_def json_eval todo_to_js_def item_a_def)

lemma parse_compact: "JSON_parse compact_store_value = Parsed (JArr [todo_to_js (item_a High)])"
  by (simp add: compact_store_value_def json_eval todo_to_js_def item_a_def)

lemma parse_old:
  "JSON_parse old_store_value =
     Parsed (JArr [JObj [(ascii ''id'', JNum 1), (ascii ''text'', JStr (ascii ''a'')),
                         (ascii ''completed'', JBool False)]])"
  by (simp add: old_store_value_def json_eval)

lemma stringify_item_a: "JSON_stringify (JArr [todo_to_js (item_a High)]) = compact_store_value"
  by (simp add: compact_store_value_def stringify_eval todo_to_js_def item_a_def)

lemma spaced_not_compact: "spaced_store_value \<noteq> compact_store_value"
  by (simp add: spaced_store_value_def compact_store_value_def ascii_def quoted_def)

text \<open>
  Claim C5 as stated fails: a stored string with a space after each colon and comma
  parses as one item-like record with its priority, and is written back without the
  spaces.
\<close>

theorem spaced_value_counterexample:
  "JSON_parse spaced_store_value = Parsed (JArr [todo_to_js (item_a High)])
   \<and> item_like (todo_to_js (item_a High))
   \<and> has_priority (todo_to_js (item_a High))
   \<and> load_then_save spaced_store_value = Some compact_store_value
   \<and> load_then_save spaced_store_value \<noteq> Some spaced_store_value"
proof -
  have "load_then_save spaced_store_value =
          Some (JSON_stringify (JArr (map upgraded [todo_to_js (item_a High)])))"
    by (rule load_then_save_item_like) (simp_all add: parse_spaced item_like_todo_to_js)
  then have "load_then_save spaced_store_value = Some compact_store_value"
    by (simp add: upgraded_has_priority has_priority_todo_to_js stringify_item_a)
  then show ?thesis
    using spaced_not_compact by (simp add: parse_spaced item_like_todo_to_js has_priority_todo_to_js)
qed

theorem load_save_roundtrip_witness:
  "JSON_parse compact_store_value = Parsed (JArr [todo_to_js (item_a High)])
   \<and> item_like (todo_to_js (item_a High))
   \<and> has_priority (todo_to_js (item_a High))
   \<and> JSON_stringify (JArr [todo_to_js (item_a High)]) = compact_store_value
   \<and> load_then_save compact_store_value = Some compact_store_value
   \<and> load_then_save old_store_value =
       Some (ascii ''[{'' @ quoted ''id'' @ ascii '':1,'' @ quoted ''text'' @ ascii '':'' @
             quoted ''a'' @ ascii '','' @ quoted ''completed'' @ ascii '':false,'' @
             quoted ''priority'' @ ascii '':'' @ quoted ''medium'' @ ascii ''}]'')
   \<and> \<bar>todo_id (item_a Low)\<bar> \<le> 9007199254740992
   \<and> load_then_save (save [item_a Low]) = Some (save [item_a Low])"
proof -
  have 1: "load_then_save compact_store_value = Some compact_store_value"
    using load_save_roundtrip [of compact_store_value "[todo_to_js (item_a High)]" "[]"]
    by (simp add: parse_compact item_like_todo_to_js has_priority_todo_to_js stringify_item_a
        upgraded_has_priority)
  let ?old = "JObj [(ascii ''id'', JNum 1), (ascii ''text'', JStr (ascii ''a'')),
                    (ascii ''completed'', JBool False)]"
  have il: "item_like ?old"
    by (simp add: item_like_def ascii_def is_number_def is_string_def is_boolean_def)
  have "load_then_save old_store_value = Some (JSON_stringify (JArr (map upgraded [?old])))"
    using load_save_roundtrip [of old_store_value "[?old]" "[]"] il by (simp add: parse_old)
  then have 2: "load_then_save old_store_value =
       Some (ascii ''[{'' @ quoted ''id'' @ ascii '':1,'' @ quoted ''text'' @ ascii '':'' @
             quoted ''a'' @ ascii '','' @ quoted ''completed'' @ ascii '':false,'' @
             quoted ''priority'' @ ascii '':'' @ quoted ''medium'' @ ascii ''}]'')"
    by (simp add: upgraded_def has_priority_def stringify_eval)
  have i: "\<bar>todo_id (item_a Low)\<bar> \<le> 9007199254740992" by (simp add: item_a_def)
  have 3: "load_then_save (save [item_a Low]) = Some (save [item_a Low])"
    using load_save_roundtrip [of "[]" "[]" "[item_a Low]"] i by simp
  show ?thesis
    using 1 2 3 i
    by (simp add: parse_compact item_like_todo_to_js has_priority_todo_to_js stringify_item_a)
qed

lemma those_map_None:
  "\<exists>x \<in> set xs. f x = None \<Longrightarrow> those (map f xs) = None"
  by (induction xs) (auto split: option.splits)

lemma withPriority_None: "withPriority x = None \<longleftrightarrow> x = JNull"
  by (simp add: withPriority_def)

lemma load_array:
  assumes "JSON_parse str = Parsed (JArr xs)"
  shows "load (Some str) =
           (if JNull \<in> set xs then SetTodos [] else SetTodos (map spread_with_priority xs))"
proof -
  from assms have ne: "str \<noteq> []" using JSON_parse_empty by auto
  show ?thesis
  proof (cases "JNull \<in> set xs")
    case True
    then have "those (map withPriority xs) = None"
      by (intro those_map_None) (auto simp add: withPriority_None)
    with assms ne True show ?thesis by (simp add: load_def)
  next
    case False
    then have "those (map withPriority xs) = Some (map spread_with_priority xs)"
      by (intro those_map_Some) (auto simp add: withPriority_def)
    with assms ne False show ?thesis by (simp add: load_def)
  qed
qed

lemma load_not_array:
  assumes "JSON_parse str = Parsed v" and "\<forall>xs. v \<noteq> JArr xs"
  shows "load (Some str) = SetTodos []"
proof -
  from assms have ne: "str \<noteq> []" using JSON_parse_empty by auto
  with assms show ?thesis by (cases v) (simp_all add: load_def)
qed

text \<open>
  Claim C10, as the code has it. Nothing is loaded when the key is absent or holds the
  empty string. A JSON array without a null element is accepted whatever its elements
  are: each element becomes the object of its own properties with \<^verbatim>\<open>priority\<close> set to
  \<^verbatim>\<open>"medium"\<close> when it is missing or falsy (a number or a boolean becomes an object with
  that property alone, a string the object of its characters). An array with a null
  element (the callback throws), a value that is not an array, and a string that does
  not parse all give the empty collection, and no outcome is an error.
\<close>

theorem load_without_validation:
  "load None = NoSetTodos
   \<and> load (Some []) = NoSetTodos
   \<and> (JSON_parse str = Parsed (JArr xs) \<and> JNull \<notin> set xs \<longrightarrow>
        load (Some str) = SetTodos (map spread_with_priority xs))
   \<and> (JSON_parse str = Parsed (JArr xs) \<and> JNull \<in> set xs \<longrightarrow> load (Some str) = SetTodos [])
   \<and> (JSON_parse str = Parsed v \<and> (\<forall>ys. v \<noteq> JArr ys) \<longrightarrow> load (Some str) = SetTodos [])
   \<and> (str \<noteq> [] \<and> JSON_parse str = SyntaxError \<longrightarrow> load (Some str) = SetTodos [])
   \<and> ((case map_of ps (ascii ''priority'') of None \<Rightarrow> True | Some p \<Rightarrow> \<not> truthy p) \<longrightarrow>
        spread_with_priority (JObj ps) =
          JObj (define_property (ascii ''priority'') (JStr (ascii ''medium'')) ps))
   \<and> (map_of ps (ascii ''priority'') = Some p \<and> truthy p \<longrightarrow> spread_with_priority (JObj ps) = JObj ps)
   \<and> spread_with_priority (JNum n) = JObj [(ascii ''priority'', JStr (ascii ''medium''))]
   \<and> spread_with_priority (JBool b) = JObj [(ascii ''priority'', JStr (ascii ''medium''))]
   \<and> spread_with_priority (JStr [c]) =
        JObj [(ascii ''0'', JStr [c]), (ascii ''priority'', JStr (ascii ''medium''))]"
proof -
  have a: "load None = NoSetTodos" "load (Some []) = NoSetTodos" by (simp_all add: load_def)
  have b: "JSON_parse str = Parsed (JArr xs) \<and> JNull \<notin> set xs \<longrightarrow>
        load (Some str) = SetTodos (map spread_with_priority xs)"
    by (simp add: load_array)
  have c: "JSON_parse str = Parsed (JArr xs) \<and> JNull \<in> set xs \<longrightarrow> load (Some str) = SetTodos []"
    by (simp add: load_array)
  have d: "JSON_parse str = Parsed v \<and> (\<forall>ys. v \<noteq> JArr ys) \<longrightarrow> load (Some str) = SetTodos []"
    using load_not_array by blast
  have e: "str \<noteq> [] \<and> JSON_parse str = SyntaxError \<longrightarrow> load (Some str) = SetTodos []"
    by (simp add: load_def)
  have f: "(case map_of ps (ascii ''priority'') of None \<Rightarrow> True | Some p \<Rightarrow> \<not> truthy p) \<longrightarrow>
        spread_with_priority (JObj ps) =
          JObj (define_property (ascii ''priority'') (JStr (ascii ''medium'')) ps)"
    by (simp add: spread_with_priority_def split: option.splits)
  have g: "map_of ps (ascii ''priority'') = Some p \<and> truthy p \<longrightarrow>
        spread_with_priority (JObj ps) = JObj ps"
    by (simp add: spread_with_priority_def define_priority_present)
  have h: "spread_with_priority (JNum n) = JObj [(ascii ''priority'', JStr (ascii ''medium''))]"
    "spread_with_priority (JBool b) = JObj [(ascii ''priority'', JStr (ascii ''medium''))]"
    "spread_with_priority (JStr [c]) =
        JObj [(ascii ''0'', JStr [c]), (ascii ''priority'', JStr (ascii ''medium''))]"
    by (simp_all add: spread_with_priority_def showNat.simps ascii_def comes_before_def
        array_index_def isDigit_def)
  from a b c d e f g h show ?thesis by blast
qed

lemma parse_with_null:
  "JSON_parse (ascii ''[1,null]'') = Parsed (JArr [JNum 1, JNull])"
  by (simp add: json_eval)

text \<open>
  Claim C10 as stated fails for the JSON array \<^verbatim>\<open>[1,null]\<close>: it is not accepted, and its
  first element is not loaded either.
\<close>

theorem null_element_counterexample:
  "JSON_parse (ascii ''[1,null]'') = Parsed (JArr [JNum 1, JNull])
   \<and> load (Some (ascii ''[1,null]'')) = SetTodos []"
  using load_array [OF parse_with_null] by (simp add: parse_with_null)

lemma parse_untyped:
  "JSON_parse untyped_store_value =
     Parsed (JArr [JNum 7, JObj [(ascii ''id'', JNum 1), (ascii ''priority'', JStr [])]])"
  by (simp add: untyped_store_value_def json_eval)

lemma parse_object: "JSON_parse (ascii ''{}'') = Parsed (JObj [])"
  by (simp add: json_eval)

lemma parse_garbage: "JSON_parse (ascii ''nope'') = SyntaxError"
  by (simp add: json_eval)

theorem load_without_validation_witness:
  "JSON_parse untyped_store_value =
     Parsed (JArr [JNum 7, JObj [(ascii ''id'', JNum 1), (ascii ''priority'', JStr [])]])
   \<and> load (Some untyped_store_value) =
       SetTodos [JObj [(ascii ''priority'', JStr (ascii ''medium''))],
                 JObj [(ascii ''id'', JNum 1), (ascii ''priority'', JStr (ascii ''medium''))]]
   \<and> JSON_parse (ascii ''[1,null]'') = Parsed (JArr [JNum 1, JNull])
   \<and> load (Some (ascii ''[1,null]'')) = SetTodos []
   \<and> JSON_parse (ascii ''{}'') = Parsed (JObj [])
   \<and> load (Some (ascii ''{}'')) = SetTodos []
   \<and> JSON_parse (ascii ''nope'') = SyntaxError
   \<and> load (Some (ascii ''nope'')) = SetTodos []"
proof -
  let ?o = "[(ascii ''id'', JNum 1), (ascii ''priority'', JStr [])]"
  have t: "case map_of ?o (ascii ''priority'') of None \<Rightarrow> True | Some p \<Rightarrow> \<not> truthy p"
    by (simp add: ascii_def)
  have 1: "load (Some untyped_store_value) =
       SetTodos [JObj [(ascii ''priority'', JStr (ascii ''medium''))],
                 JObj [(ascii ''id'', JNum 1), (ascii ''priority'', JStr (ascii ''medium''))]]"
    using load_without_validation [where str = untyped_store_value
        and xs = "[JNum 7, JObj ?o]" and ps = ?o and n = 7] t
    by (simp add: parse_untyped ascii_def comes_before_def array_index_def isDigit_def)
  have 2: "load (Some (ascii ''[1,null]'')) = SetTodos []"
    using load_without_validation [where str = "ascii ''[1,null]''" and xs = "[JNum 1, JNull]"]
    by (simp add: parse_with_null)
  have 3: "load (Some (ascii ''{}'')) = SetTodos []"
    using load_without_validation [where str = "ascii ''{}''" and v = "JObj []"]
    by (simp add: parse_object)
  have n: "ascii ''nope'' \<noteq> []" by (simp add: ascii_def)
  have 4: "load (Some (ascii ''nope'')) = SetTodos []"
    using load_without_validation [where str = "ascii ''nope''"] n
    by (simp add: parse_garbage)
  show ?thesis using 1 2 3 4 by (simp add: parse_untyped parse_with_null parse_object parse_garbage)
qed

section \<open>Properties of the export orchestration\<close>

text \<open>
  Claim C7. For every format and both scopes, when the items to export are none,
  \<^verbatim>\<open>exportTodos\<close> raises the alert (nothing to export, or nothing selected for the scope
  of the selection) and leaves the state as it is: no content is generated and no file
  is handed to the download. After \<^verbatim>\<open>batchDelete\<close> the export of the selection raises
  the alert for an empty selection. A download only happens with the content generated
  from a non-empty list of items.
\<close>

theorem empty_export_blocked:
  "(todos s = [] \<longrightarrow>
      exportTodos contentDate now format False s = (Alert nothing_to_export, s))
   \<and> (filter (\<lambda>todo. todo_id todo |\<in>| selectedIds s) (todos s) = [] \<longrightarrow>
      exportTodos contentDate now format True s = (Alert nothing_selected, s))
   \<and> exportTodos contentDate now format True (batchDelete s) =
       (Alert nothing_selected, batchDelete s)
   \<and> (exportTodos contentDate now format onlySelected s = (DownloadFile content filename mime, s')
        \<longrightarrow> (if onlySelected then filter (\<lambda>todo. todo_id todo |\<in>| selectedIds s) (todos s)
              else todos s) \<noteq> []
            \<and> content = generateExportContent contentDate format
                  (if onlySelected then filter (\<lambda>todo. todo_id todo |\<in>| selectedIds s) (todos s)
                   else todos s))"
  by (auto simp add: exportTodos_def batchDelete_def Let_def split: if_splits)

theorem empty_export_blocked_witness:
  "todos initial_state = []
   \<and> exportTodos new_year new_year Json False initial_state = (Alert nothing_to_export, initial_state)
   \<and> filter (\<lambda>todo. todo_id todo |\<in>| selectedIds two_items) (todos two_items) = []
   \<and> exportTodos new_year new_year Csv True two_items = (Alert nothing_selected, two_items)
   \<and> exportTodos new_year new_year Csv False (initial_state\<lparr>todos := [say_hi]\<rparr>) =
       (DownloadFile (csvContent [say_hi]) (ascii ''todos_20240101_080000.csv'')
          (ascii ''text/csv;charset=utf-8''),
        initial_state\<lparr>todos := [say_hi]\<rparr>)"
proof -
  have a: "todos initial_state = []" by (simp add: initial_state_def)
  have b: "filter (\<lambda>todo. todo_id todo |\<in>| selectedIds two_items) (todos two_items) = []"
    by (simp add: two_items_def initial_state_def)
  have c: "exportTodos new_year new_year Csv False (initial_state\<lparr>todos := [say_hi]\<rparr>) =
       (DownloadFile (csvContent [say_hi]) (ascii ''todos_20240101_080000.csv'')
          (ascii ''text/csv;charset=utf-8''),
        initial_state\<lparr>todos := [say_hi]\<rparr>)"
    by (simp add: exportTodos_def generateExportContent_def Let_def initial_state_def
        new_year_def padStart_def numberToString_def showNat.simps ascii_def)
  from empty_export_blocked [where s = initial_state and contentDate = new_year and now = new_year
      and format = Json and onlySelected = False]
    empty_export_blocked [where s = two_items and contentDate = new_year and now = new_year
      and format = Csv and onlySelected = True]
    empty_export_blocked [where s = "initial_state\<lparr>todos := [say_hi]\<rparr>" and contentDate = new_year
      and now = new_year and format = Csv and onlySelected = False
      and content = "csvContent [say_hi]" and filename = "ascii ''todos_20240101_080000.csv''"
      and mime = "ascii ''text/csv;charset=utf-8''" and s' = "initial_state\<lparr>todos := [say_hi]\<rparr>"]
    a b c
  show ?thesis by simp
qed

section \<open>Properties of the persistence\<close>

lemma step_isHydrated [simp]: "isHydrated (step lc c s) = isHydrated s"
  by (cases c)
     (simp_all add: add_def addTodo_def Let_def toggleTodo_def deleteTodo_def toggleSelect_def
        toggleSelectAll_def batchDelete_def)

lemma step_todos_unchanged:
  "\<not> calls_setTodos lc c s \<Longrightarrow> todos (step lc c s) = todos s"
  by (cases c) (auto simp add: add_todos_cases toggleSelect_def toggleSelectAll_def)

lemma app_run_Nil: "app_run lc [] app = app"
  by (simp add: app_run_def)

lemma app_run_Cons: "app_run lc (ev # evs) app = app_run lc evs (render lc ev app)"
  by (simp add: app_run_def)

lemma render_handler_before_load:
  "\<not> isHydrated s \<Longrightarrow> render lc (Handler c) (s, store) = (step lc c s, store)"
  by (simp add: render_def saveEffect_def Let_def)

lemma handlers_before_load:
  "\<not> isHydrated s \<Longrightarrow>
   app_run lc (map Handler cs) (s, store) = (run lc cs s, store)"
proof (induction cs arbitrary: s)
  case Nil
  then show ?case by (simp add: app_run_Nil run_Nil)
next
  case (Cons c cs)
  then show ?case by (simp add: app_run_Cons render_handler_before_load run_Cons)
qed

lemma render_load_in_sync:
  "\<not> isHydrated s \<Longrightarrow> in_sync store (render lc (LoadEffect loaded) (s, store))"
  by (cases loaded) (simp_all add: in_sync_def render_def loadEffect_def saveEffect_def Let_def)

lemma render_in_sync:
  assumes "in_sync store0 app"
  shows "in_sync store0 (render lc ev app)"
proof (cases ev)
  case (LoadEffect loaded)
  with assms show ?thesis
    by (cases loaded)
       (simp_all add: in_sync_def render_def loadEffect_def saveEffect_def Let_def)
next
  case (Handler c)
  show ?thesis
  proof (cases "calls_setTodos lc c (fst app)")
    case True
    with assms Handler show ?thesis
      by (simp add: in_sync_def render_def saveEffect_def Let_def)
  next
    case False
    with assms Handler show ?thesis
      by (simp add: in_sync_def render_def Let_def step_todos_unchanged)
  qed
qed

lemma app_run_in_sync:
  "in_sync store0 app \<Longrightarrow> in_sync store0 (app_run lc evs app)"
  by (induction evs arbitrary: app) (simp_all add: app_run_Nil app_run_Cons render_in_sync)

lemma app_run_append: "app_run lc (xs @ ys) app = app_run lc ys (app_run lc xs app)"
  by (simp add: app_run_def)

text \<open>
  Claim C8. The save effect writes nothing on the initial state, and no sequence of
  commands run before the load effect changes the store. The load effect is followed
  by the write of the serialised items under the key \<^verbatim>\<open>todos\<close>. From then on every
  command that replaces the items is followed by the write of the full serialisation
  of the new items under that key, a command that does not replace them leaves the
  items and the store as they are, and so after every sequence of events the store is
  the initial store with the serialisation of the current items under \<^verbatim>\<open>todos\<close>.
\<close>

theorem writes_gated_by_hydration:
  "saveEffect initial_state store = store
   \<and> (\<not> isHydrated s \<longrightarrow> app_run lc (map Handler cs) (s, store) = (run lc cs s, store))
   \<and> (\<not> isHydrated s \<longrightarrow>
        snd (render lc (LoadEffect loaded) (s, store)) =
          store(todos_key \<mapsto> save (todos (loadEffect loaded s))))
   \<and> (isHydrated s \<and> calls_setTodos lc c s \<longrightarrow>
        snd (render lc (Handler c) (s, store)) =
          store(todos_key \<mapsto> save (todos (step lc c s))))
   \<and> (isHydrated s \<and> \<not> calls_setTodos lc c s \<longrightarrow>
        render lc (Handler c) (s, store) = (step lc c s, store)
        \<and> todos (step lc c s) = todos s)
   \<and> in_sync store
        (app_run lc (map Handler cs @ [LoadEffect loaded] @ evs) (initial_state, store))"
proof -
  have ni: "\<not> isHydrated initial_state" by (simp add: initial_state_def)
  have 1: "saveEffect initial_state store = store" using ni by (simp add: saveEffect_def)
  have 2: "\<not> isHydrated s \<longrightarrow> app_run lc (map Handler cs) (s, store) = (run lc cs s, store)"
    by (simp add: handlers_before_load)
  have 3: "\<not> isHydrated s \<longrightarrow>
        snd (render lc (LoadEffect loaded) (s, store)) =
          store(todos_key \<mapsto> save (todos (loadEffect loaded s)))"
    by (cases loaded) (simp_all add: render_def loadEffect_def saveEffect_def Let_def)
  have 4: "isHydrated s \<and> calls_setTodos lc c s \<longrightarrow>
        snd (render lc (Handler c) (s, store)) =
          store(todos_key \<mapsto> save (todos (step lc c s)))"
    by (simp add: render_def saveEffect_def Let_def)
  have 5: "isHydrated s \<and> \<not> calls_setTodos lc c s \<longrightarrow>
        render lc (Handler c) (s, store) = (step lc c s, store)
        \<and> todos (step lc c s) = todos s"
    by (simp add: render_def Let_def step_todos_unchanged)
  have "\<not> isHydrated (run lc cs initial_state)"
    using ni by (induction cs arbitrary: rule: rev_induct) (simp_all add: run_def)
  then have "in_sync store (render lc (LoadEffect loaded) (run lc cs initial_state, store))"
    by (rule render_load_in_sync)
  then have "in_sync store
      (app_run lc evs (render lc (LoadEffect loaded) (run lc cs initial_state, store)))"
    by (rule app_run_in_sync)
  then have 6: "in_sync store
        (app_run lc (map Handler cs @ [LoadEffect loaded] @ evs) (initial_state, store))"
    using ni by (simp add: app_run_append handlers_before_load app_run_Cons)
  from 1 2 3 4 5 6 show ?thesis by blast
qed

lemma early_add_run:
  "run toLowerCase_ascii [Add (ascii ''x'') Low 5] initial_state =
     initial_state\<lparr>todos := [\<lparr>todo_id = 5, todo_text = ascii ''x'', todo_completed = False,
                                todo_priority = Low\<rparr>]\<rparr>"
  by (simp add: run_def add_def addTodo_def initial_state_def trim_def isWhiteSpace_def ascii_def
      toLowerCase_ascii_def Let_def)

theorem writes_gated_by_hydration_witness:
  "\<not> isHydrated initial_state
   \<and> app_run toLowerCase_ascii (map Handler [Add (ascii ''x'') Low 5]) (initial_state, old_store) =
       (initial_state\<lparr>todos := [\<lparr>todo_id = 5, todo_text = ascii ''x'', todo_completed = False,
                                  todo_priority = Low\<rparr>]\<rparr>, old_store)
   \<and> snd (render toLowerCase_ascii (LoadEffect (Some [item_a High])) (initial_state, old_store)) =
       old_store(todos_key \<mapsto> save [item_a High])
   \<and> isHydrated (loadEffect (Some [item_a High]) initial_state)
   \<and> calls_setTodos toLowerCase_ascii (Toggle 1) (loadEffect (Some [item_a High]) initial_state)
   \<and> snd (render toLowerCase_ascii (Handler (Toggle 1))
            (loadEffect (Some [item_a High]) initial_state, old_store)) =
       old_store(todos_key \<mapsto> save [(item_a High)\<lparr>todo_completed := True\<rparr>])
   \<and> \<not> calls_setTodos toLowerCase_ascii (ToggleSelect 1)
         (loadEffect (Some [item_a High]) initial_state)
   \<and> snd (render toLowerCase_ascii (Handler (ToggleSelect 1))
            (loadEffect (Some [item_a High]) initial_state, old_store)) = old_store
   \<and> in_sync old_store
        (app_run toLowerCase_ascii
           (map Handler [Add (ascii ''x'') Low 5] @ [LoadEffect (Some [item_a High])] @
            [Handler (Toggle 1)])
           (initial_state, old_store))"
proof -
  have ni: "\<not> isHydrated initial_state" by (simp add: initial_state_def)
  have h: "isHydrated (loadEffect (Some [item_a High]) initial_state)"
    by (simp add: loadEffect_def)
  have t: "todos (step toLowerCase_ascii (Toggle 1) (loadEffect (Some [item_a High]) initial_state))
           = [(item_a High)\<lparr>todo_completed := True\<rparr>]"
    by (simp add: loadEffect_def toggleTodo_def item_a_def)
  have l: "todos (loadEffect (Some [item_a High]) initial_state) = [item_a High]"
    by (simp add: loadEffect_def)
  from writes_gated_by_hydration [where s = initial_state and store = old_store
      and lc = toLowerCase_ascii and cs = "[Add (ascii ''x'') Low 5]"
      and loaded = "Some [item_a High]" and evs = "[Handler (Toggle 1)]"] ni
  have 1: "app_run toLowerCase_ascii (map Handler [Add (ascii ''x'') Low 5])
             (initial_state, old_store) =
           (run toLowerCase_ascii [Add (ascii ''x'') Low 5] initial_state, old_store)"
    and 2: "snd (render toLowerCase_ascii (LoadEffect (Some [item_a High]))
                  (initial_state, old_store)) =
            old_store(todos_key \<mapsto> save (todos (loadEffect (Some [item_a High]) initial_state)))"
    and 3: "in_sync old_store
        (app_run toLowerCase_ascii
           (map Handler [Add (ascii ''x'') Low 5] @ [LoadEffect (Some [item_a High])] @
            [Handler (Toggle 1)])
           (initial_state, old_store))"
    by blast+
  from writes_gated_by_hydration [where s = "loadEffect (Some [item_a High]) initial_state"
      and store = old_store and lc = toLowerCase_ascii and c = "Toggle 1"] h
  have 4: "snd (render toLowerCase_ascii (Handler (Toggle 1))
            (loadEffect (Some [item_a High]) initial_state, old_store)) =
       old_store(todos_key \<mapsto> save (todos (step toLowerCase_ascii (Toggle 1)
          (loadEffect (Some [item_a High]) initial_state))))"
    by simp
  from writes_gated_by_hydration [where s = "loadEffect (Some [item_a High]) initial_state"
      and store = old_store and lc = toLowerCase_ascii and c = "ToggleSelect 1"] h
  have 5: "snd (render toLowerCase_ascii (Handler (ToggleSelect 1))
            (loadEffect (Some [item_a High]) initial_state, old_store)) = old_store"
    by simp
  show ?thesis
    using ni h 1 2 3 4 5 t by (simp add: early_add_run l)
qed

end
